theory Spec2Isabelle
  imports Complex_Main "HOL-Library.AList"
begin

section \<open>Decimal amounts and rounding\<close>

text \<open>
  Every amount and quantity of the program is a Python \<^verbatim>\<open>Decimal\<close>, a rational
  here. Python rounds the result of each \<^verbatim>\<open>+\<close>, \<^verbatim>\<open>-\<close>, \<^verbatim>\<open>*\<close> and \<^verbatim>\<open>/\<close> to the
  context precision of 28 significant digits, ties to even (\<open>context_round\<close>).
  Where the program goes on computing with a quotient, in the flush of the pool and
  in the FIFO cost of a partly consumed lot, that rounding decides half-penny ties on
  everyday amounts, and the model rounds the quotient and the product as Python
  does. Everywhere else a result is exact unless it needs more than 28 digits, or it
  is a single quotient that is quantized at once; there the model computes exactly
  and leaves the context rounding out, and with it the \<^verbatim>\<open>InvalidOperation\<close> of a
  \<^verbatim>\<open>quantize\<close> whose result would need more than 28 digits.

  \<^verbatim>\<open>x.quantize(Decimal('0.01'), rounding=ROUND_HALF_UP)\<close> rounds to a multiple of the
  quantum, ties away from zero. \<^verbatim>\<open>x.quantize(Decimal('0.01'))\<close> uses the context's
  default rounding, \<^verbatim>\<open>ROUND_HALF_EVEN\<close>.
\<close>

type_synonym decimal = rat

definition quantize_half_up :: "decimal \<Rightarrow> decimal \<Rightarrow> decimal" where
  "quantize_half_up q x =
     (if x < 0 then - (of_int \<lfloor>- x / q + 1 / 2\<rfloor> * q)
      else of_int \<lfloor>x / q + 1 / 2\<rfloor> * q)"

definition quantize_half_even :: "decimal \<Rightarrow> decimal \<Rightarrow> decimal" where
  "quantize_half_even q x =
     (let y = x / q; f = \<lfloor>y\<rfloor>; r = y - of_int f
      in of_int (if r < 1 / 2 then f
                 else if 1 / 2 < r then f + 1
                 else if even f then f else f + 1) * q)"

text \<open>
  Rounding to the context precision. \<open>digits n\<close> is the number of decimal digits of
  \<open>n\<close>; \<open>adjusted x\<close> is the exponent of the leading digit of \<open>x\<close>
  (\<^verbatim>\<open>Decimal.adjusted()\<close>), so that rounding to 28 significant digits is rounding to a
  multiple of ten to the power \<open>adjusted x - 27\<close>.
\<close>

fun digits :: "nat \<Rightarrow> nat" where
  "digits n = (if n < 10 then 1 else Suc (digits (n div 10)))"

declare digits.simps [simp del]

definition adjusted :: "decimal \<Rightarrow> int" where
  "adjusted x =
     (if 1 \<le> \<bar>x\<bar> then int (digits (nat \<lfloor>\<bar>x\<bar>\<rfloor>)) - 1
      else - int (digits (nat (\<lceil>1 / \<bar>x\<bar>\<rceil> - 1))))"

definition pow10 :: "int \<Rightarrow> decimal" where
  "pow10 e = (if 0 \<le> e then 10 ^ nat e else 1 / 10 ^ nat (- e))"

definition context_round :: "decimal \<Rightarrow> decimal" where
  "context_round x = (if x = 0 then 0 else quantize_half_even (pow10 (adjusted x - 27)) x)"

abbreviation cent :: decimal where
  "cent \<equiv> 1 / 100"

abbreviation unit_quantum :: decimal where
  "unit_quantum \<equiv> 1 / 10000"

section \<open>Tax computation (tax\_computation.py)\<close>

record account =
  debit :: decimal
  credit :: decimal

type_synonym accounts = "string \<rightharpoonup> account"

record InterestReliefResult =
  total_interest_paid :: decimal
  allowable_interest :: decimal
  disallowed_interest :: decimal
  icr_limit :: decimal
  taxable_earnings :: decimal
  icr_applicable :: bool
  warning :: "string option"

abbreviation INTEREST_RECEIVED :: string where
  "INTEREST_RECEIVED \<equiv> ''4100''"

abbreviation BROKER_FEES :: string where
  "BROKER_FEES \<equiv> ''5200''"

abbreviation INTEREST_PAID :: string where
  "INTEREST_PAID \<equiv> ''5600''"

text \<open>\<^verbatim>\<open>TaxComputation._debit\<close> and \<^verbatim>\<open>_credit\<close>: a missing account counts as zero.\<close>

definition acc_debit :: "accounts \<Rightarrow> string \<Rightarrow> decimal" where
  "acc_debit accs code = (case accs code of None \<Rightarrow> 0 | Some a \<Rightarrow> debit a)"

definition acc_credit :: "accounts \<Rightarrow> string \<Rightarrow> decimal" where
  "acc_credit accs code = (case accs code of None \<Rightarrow> 0 | Some a \<Rightarrow> credit a)"

text \<open>
  \<^verbatim>\<open>calculate_management_expenses\<close> returns the broker fees of the trial balance and
  the total that \<^verbatim>\<open>_load_additional_management_expenses\<close> reads from a CSV file. The
  file is outside the model: its total is the parameter \<open>other\<close>.
\<close>

definition calculate_management_expenses :: "accounts \<Rightarrow> decimal \<Rightarrow> decimal \<times> decimal" where
  "calculate_management_expenses accs other = (acc_debit accs BROKER_FEES, other)"

definition icr_warning :: string where
  "icr_warning =
     ''ICR calculation may not apply to investment companies. Seek professional tax advice.''"

definition calculate_interest_relief :: "accounts \<Rightarrow> decimal \<Rightarrow> InterestReliefResult" where
  "calculate_interest_relief accs other =
     (let interest_paid = acc_debit accs INTEREST_PAID in
      if interest_paid = 0 then
        \<lparr>total_interest_paid = 0, allowable_interest = 0, disallowed_interest = 0,
         icr_limit = 0, taxable_earnings = 0, icr_applicable = False, warning = None\<rparr>
      else
        let interest_received = acc_credit accs INTEREST_RECEIVED;
            (mgmt_ibkr, mgmt_other) = calculate_management_expenses accs other;
            management_expenses = mgmt_ibkr + mgmt_other;
            earnings = interest_received - management_expenses
        in if earnings \<le> 0 then
             \<lparr>total_interest_paid = interest_paid, allowable_interest = 0,
              disallowed_interest = interest_paid, icr_limit = 0,
              taxable_earnings = earnings, icr_applicable = True,
              warning = Some icr_warning\<rparr>
           else
             let limit = quantize_half_up cent (earnings * (30 / 100));
                 (allowable, disallowed) =
                   (if interest_paid \<le> limit then (interest_paid, 0)
                    else (limit, interest_paid - limit))
             in \<lparr>total_interest_paid = interest_paid, allowable_interest = allowable,
                 disallowed_interest = disallowed, icr_limit = limit,
                 taxable_earnings = earnings, icr_applicable = True,
                 warning = Some icr_warning\<rparr>)"

text \<open>
  The three band formulas of \<^verbatim>\<open>calculate_corporation_tax\<close>, before rounding:
  \<^verbatim>\<open>profit * Decimal('0.19')\<close>, \<^verbatim>\<open>profit * Decimal('0.25')\<close>, and the main-rate tax
  less the marginal relief \<^verbatim>\<open>(Decimal('250000') - profit) * Decimal('3') / Decimal('200')\<close>.
\<close>

definition small_profits_tax :: "decimal \<Rightarrow> decimal" where
  "small_profits_tax profit = profit * (19 / 100)"

definition main_rate_tax :: "decimal \<Rightarrow> decimal" where
  "main_rate_tax profit = profit * (25 / 100)"

definition marginal_relief_tax :: "decimal \<Rightarrow> decimal" where
  "marginal_relief_tax profit =
     (let tax_at_main = profit * (25 / 100);
          marginal_relief = (250000 - profit) * 3 / 200
      in tax_at_main - marginal_relief)"

text \<open>
  \<^verbatim>\<open>calculate_corporation_tax\<close>, on the profit it has resolved (its argument when one
  is given, the stored or freshly computed taxable profit otherwise).
\<close>

definition calculate_corporation_tax :: "decimal \<Rightarrow> decimal" where
  "calculate_corporation_tax profit =
     (if profit \<le> 0 then 0
      else
        let tax_liability =
              (if profit \<le> 50000 then small_profits_tax profit
               else if 250000 \<le> profit then main_rate_tax profit
               else marginal_relief_tax profit)
        in quantize_half_up cent tax_liability)"

section \<open>Dates and failures\<close>

text \<open>
  A \<^verbatim>\<open>datetime.date\<close> is its proleptic Gregorian ordinal (\<^verbatim>\<open>date.toordinal()\<close>):
  \<^verbatim>\<open>date.min\<close> is 1 and \<^verbatim>\<open>date.max = date(9999, 12, 31)\<close> is 3652059. Adding a
  \<^verbatim>\<open>timedelta\<close> raises \<^verbatim>\<open>OverflowError\<close> when the result leaves that range; the
  difference of two dates and the comparisons never raise. Dividing Decimals raises
  \<^verbatim>\<open>DivisionByZero\<close> on a zero divisor (\<^verbatim>\<open>InvalidOperation\<close> for 0/0).
\<close>

type_synonym date = int

datatype error = OverflowError | DivisionByZero | InvalidOperation

definition date_max :: date where
  "date_max = 3652059"

definition valid_date :: "date \<Rightarrow> bool" where
  "valid_date d \<longleftrightarrow> 1 \<le> d \<and> d \<le> date_max"

definition date_add :: "date \<Rightarrow> int \<Rightarrow> error + date" where
  "date_add d n = (if valid_date (d + n) then Inr (d + n) else Inl OverflowError)"

definition decimal_div :: "decimal \<Rightarrow> decimal \<Rightarrow> error + decimal" where
  "decimal_div a b =
     (if b = 0 then Inl (if a = 0 then InvalidOperation else DivisionByZero)
      else Inr (a / b))"

section \<open>Section 104 pooling (section\_104\_pooling.py)\<close>

text \<open>
  The dataclasses \<^verbatim>\<open>DisposalRecord\<close> and \<^verbatim>\<open>MatchedDisposal\<close>. Both have fields
  \<^verbatim>\<open>date\<close> and \<^verbatim>\<open>symbol\<close>; they are \<open>d_date\<close>, \<open>d_symbol\<close> in the first record
  and \<open>m_date\<close>, \<open>m_symbol\<close>, \<open>m_quantity\<close> in the second.
\<close>

record DisposalRecord =
  d_date :: date
  d_symbol :: string
  qty_remaining :: decimal
  original_qty :: decimal
  total_proceeds_gbp :: decimal

record MatchedDisposal =
  m_date :: date
  m_symbol :: string
  m_quantity :: decimal
  proceeds_gbp :: decimal
  cost_gbp :: decimal
  gain_loss_gbp :: decimal
  matching_rule :: string

text \<open>One entry of \<^verbatim>\<open>_pools\<close>: the dict \<^verbatim>\<open>{'qty': ..., 'cost': ...}\<close>.\<close>

record pool =
  qty :: decimal
  cost :: decimal

text \<open>
  The warning that \<^verbatim>\<open>_flush_pending_disposals_for_symbol\<close> prints to
  \<^verbatim>\<open>sys.stderr\<close>, with the quantity and the symbol it formats into the line.
\<close>

datatype warning = PoolEmpty decimal string

text \<open>
  The object's state. \<^verbatim>\<open>_pools\<close> is a \<^verbatim>\<open>defaultdict\<close>: an association list in
  insertion order, where reading a missing key stores the default entry. The lines
  written to \<^verbatim>\<open>sys.stderr\<close> are kept in \<open>stderr\<close>.
\<close>

record Section104Pool =
  pools :: "(string \<times> pool) list"
  pending_disposals :: "DisposalRecord list"
  disposals :: "MatchedDisposal list"
  stderr :: "warning list"

definition init_pool :: Section104Pool where
  "init_pool = \<lparr>pools = [], pending_disposals = [], disposals = [], stderr = []\<rparr>"

definition default_pool :: pool where
  "default_pool = \<lparr>qty = 0, cost = 0\<rparr>"

definition pool_of :: "(string \<times> pool) list \<Rightarrow> string \<Rightarrow> pool" where
  "pool_of ps symbol = (case map_of ps symbol of None \<Rightarrow> default_pool | Some p \<Rightarrow> p)"

abbreviation THIRTY_DAYS :: int where
  "THIRTY_DAYS \<equiv> 30"

subsection \<open>add\_acquisition\<close>

definition same_day_of :: "date \<Rightarrow> string \<Rightarrow> DisposalRecord list \<Rightarrow> (nat \<times> DisposalRecord) list" where
  "same_day_of acq_date symbol pending =
     filter (\<lambda>(i, d). d_symbol d = symbol \<and> d_date d = acq_date) (enumerate 0 pending)"

definition thirty_day_of ::
  "date \<Rightarrow> string \<Rightarrow> DisposalRecord list \<Rightarrow> (nat \<times> DisposalRecord) list \<Rightarrow> (nat \<times> DisposalRecord) list" where
  "thirty_day_of acq_date symbol pending same_day =
     sort_key (\<lambda>(i, d). d_date d)
       (filter (\<lambda>(i, d). d_symbol d = symbol \<and> d_date d < acq_date
                  \<and> acq_date - d_date d \<le> THIRTY_DAYS \<and> (i, d) \<notin> set same_day)
          (enumerate 0 pending))"

text \<open>
  The body of the loop over \<^verbatim>\<open>to_match\<close>. Each entry refers to an object of the
  pending list; the index is its address there, so the body reads the record at that
  index and writes the reduced \<^verbatim>\<open>qty_remaining\<close> back at it. The accumulator is the
  pending list, \<^verbatim>\<open>remaining_qty\<close>, \<^verbatim>\<open>remaining_cost\<close> and the records appended to
  \<^verbatim>\<open>_disposals\<close>.
\<close>

type_synonym match_acc = "DisposalRecord list \<times> decimal \<times> decimal \<times> MatchedDisposal list"

definition match_step :: "date \<Rightarrow> string \<Rightarrow> decimal \<Rightarrow> nat \<Rightarrow> match_acc \<Rightarrow> error + match_acc" where
  "match_step acq_date symbol cost_per_unit i acc =
     (case acc of (pending, remaining_qty, remaining_cost, out) \<Rightarrow>
        let disp = pending ! i in
        if remaining_qty \<le> 0 \<or> qty_remaining disp \<le> 0 then Inr acc
        else
          let match_qty = min remaining_qty (qty_remaining disp);
              match_cost = quantize_half_up cent (cost_per_unit * match_qty)
          in case decimal_div (total_proceeds_gbp disp * match_qty) (original_qty disp) of
               Inl e \<Rightarrow> Inl e
             | Inr pr \<Rightarrow>
                 let match_proceeds = quantize_half_up cent pr;
                     rule = (if d_date disp = acq_date then ''same_day'' else ''thirty_day'')
                 in Inr (pending[i := disp\<lparr>qty_remaining := qty_remaining disp - match_qty\<rparr>],
                         remaining_qty - match_qty,
                         remaining_cost - match_cost,
                         out @ [\<lparr>m_date = d_date disp, m_symbol = symbol, m_quantity = match_qty,
                                  proceeds_gbp = match_proceeds, cost_gbp = match_cost,
                                  gain_loss_gbp = match_proceeds - match_cost,
                                  matching_rule = rule\<rparr>]))"

fun match_loop :: "date \<Rightarrow> string \<Rightarrow> decimal \<Rightarrow> nat list \<Rightarrow> match_acc \<Rightarrow> error + match_acc" where
  "match_loop acq_date symbol cost_per_unit [] acc = Inr acc"
| "match_loop acq_date symbol cost_per_unit (i # is) acc =
     (case match_step acq_date symbol cost_per_unit i acc of
        Inl e \<Rightarrow> Inl e
      | Inr acc' \<Rightarrow> match_loop acq_date symbol cost_per_unit is acc')"

definition add_acquisition ::
  "date \<Rightarrow> string \<Rightarrow> decimal \<Rightarrow> decimal \<Rightarrow> Section104Pool \<Rightarrow> error + Section104Pool" where
  "add_acquisition acq_date symbol q cost_in s =
     (if q \<le> 0 then Inr s
      else
        let cost_per_unit =
              (if q \<noteq> 0 then quantize_half_up unit_quantum (cost_in / q) else 0);
            same_day = same_day_of acq_date symbol (pending_disposals s);
            thirty_day = thirty_day_of acq_date symbol (pending_disposals s) same_day;
            to_match = same_day @ thirty_day
        in case match_loop acq_date symbol cost_per_unit (map fst to_match)
                  (pending_disposals s, q, cost_in, []) of
             Inl e \<Rightarrow> Inl e
           | Inr (pending, remaining_qty, remaining_cost, out) \<Rightarrow>
               Inr (s\<lparr>pools :=
                        (if 0 < remaining_qty then
                           let p = pool_of (pools s) symbol
                           in AList.update symbol
                                (p\<lparr>qty := qty p + remaining_qty, cost := cost p + remaining_cost\<rparr>)
                                (pools s)
                         else pools s),
                      pending_disposals := filter (\<lambda>d. 0 < qty_remaining d) pending,
                      disposals := disposals s @ out\<rparr>))"

subsection \<open>Flushing pending disposals against the pool\<close>

text \<open>
  Lines 186 to 205 of \<^verbatim>\<open>_flush_pending_disposals_for_symbol\<close>: what the pool gives
  for \<^verbatim>\<open>qty_to_take\<close>. The result is the cost, the pool afterwards and the warnings
  printed.
\<close>

definition flush_from_pool :: "pool \<Rightarrow> decimal \<Rightarrow> string \<Rightarrow> decimal \<times> pool \<times> warning list" where
  "flush_from_pool p qty_to_take symbol =
     (if qty p \<le> 0 then (0, p, [PoolEmpty qty_to_take symbol])
      else
        let avg_cost = context_round (cost p / qty p);
            c = quantize_half_up cent (context_round (avg_cost * qty_to_take));
            p1 = p\<lparr>cost := cost p - c\<rparr>;
            p2 = p1\<lparr>qty := qty p1 - qty_to_take\<rparr>;
            p3 = (if qty p2 < 0 then p2\<lparr>qty := 0\<rparr> else p2);
            p4 = (if cost p3 < 0 then p3\<lparr>cost := 0\<rparr> else p3)
        in (c, p4, []))"

text \<open>
  The accumulator of the flush loop: the pool entry of the symbol, \<^verbatim>\<open>new_pending\<close>,
  the records appended to \<^verbatim>\<open>_disposals\<close> and the warnings printed.
\<close>

type_synonym flush_acc = "pool \<times> DisposalRecord list \<times> MatchedDisposal list \<times> warning list"

definition flush_step :: "string \<Rightarrow> date \<Rightarrow> DisposalRecord \<Rightarrow> flush_acc \<Rightarrow> error + flush_acc" where
  "flush_step symbol before_date disp acc =
     (case acc of (p, new_pending, out, warns) \<Rightarrow>
        if d_symbol disp \<noteq> symbol \<or> qty_remaining disp \<le> 0
        then Inr (p, new_pending @ [disp], out, warns)
        else case date_add (d_date disp) THIRTY_DAYS of
               Inl e \<Rightarrow> Inl e
             | Inr window_end \<Rightarrow>
                 if before_date \<le> window_end
                 then Inr (p, new_pending @ [disp], out, warns)
                 else
                   let qty_to_take = qty_remaining disp;
                       (c, p', ws) = flush_from_pool p qty_to_take symbol
                   in case decimal_div (total_proceeds_gbp disp * qty_to_take) (original_qty disp) of
                        Inl e \<Rightarrow> Inl e
                      | Inr pr \<Rightarrow>
                          let proceeds = quantize_half_up cent pr
                          in Inr (p', new_pending,
                                  out @ [\<lparr>m_date = d_date disp, m_symbol = symbol,
                                           m_quantity = qty_to_take, proceeds_gbp = proceeds,
                                           cost_gbp = c, gain_loss_gbp = proceeds - c,
                                           matching_rule = ''section_104''\<rparr>],
                                  warns @ ws))"

fun flush_loop :: "string \<Rightarrow> date \<Rightarrow> DisposalRecord list \<Rightarrow> flush_acc \<Rightarrow> error + flush_acc" where
  "flush_loop symbol before_date [] acc = Inr acc"
| "flush_loop symbol before_date (disp # rest) acc =
     (case flush_step symbol before_date disp acc of
        Inl e \<Rightarrow> Inl e
      | Inr acc' \<Rightarrow> flush_loop symbol before_date rest acc')"

definition flush_pending_disposals_for_symbol ::
  "string \<Rightarrow> date \<Rightarrow> Section104Pool \<Rightarrow> error + Section104Pool" where
  "flush_pending_disposals_for_symbol symbol before_date s =
     (case flush_loop symbol before_date (pending_disposals s)
             (pool_of (pools s) symbol, [], [], []) of
        Inl e \<Rightarrow> Inl e
      | Inr (p, new_pending, out, warns) \<Rightarrow>
          Inr (s\<lparr>pools := AList.update symbol p (pools s),
                 pending_disposals := new_pending,
                 disposals := disposals s @ out,
                 stderr := stderr s @ warns\<rparr>))"

definition remove_disposal ::
  "date \<Rightarrow> string \<Rightarrow> decimal \<Rightarrow> decimal \<Rightarrow> Section104Pool \<Rightarrow> error + Section104Pool" where
  "remove_disposal disp_date symbol q proceeds s =
     (if q \<le> 0 then Inr s
      else case flush_pending_disposals_for_symbol symbol disp_date s of
             Inl e \<Rightarrow> Inl e
           | Inr s' \<Rightarrow>
               Inr (s'\<lparr>pending_disposals := pending_disposals s' @
                         [\<lparr>d_date = disp_date, d_symbol = symbol, qty_remaining = q,
                           original_qty = q, total_proceeds_gbp = proceeds\<rparr>]\<rparr>))"

text \<open>
  \<^verbatim>\<open>flush_all_pending\<close> iterates over the \<^verbatim>\<open>set\<close> of the pending symbols, in an
  order Python does not fix. The order is the parameter \<open>symbols\<close>; \<open>iteration_of\<close>
  says that a list is one of the orders the set can be iterated in.
\<close>

definition iteration_of :: "Section104Pool \<Rightarrow> string list \<Rightarrow> bool" where
  "iteration_of s symbols \<longleftrightarrow>
     distinct symbols \<and> set symbols = set (map d_symbol (pending_disposals s))"

fun flush_symbols :: "string list \<Rightarrow> Section104Pool \<Rightarrow> error + Section104Pool" where
  "flush_symbols [] s = Inr s"
| "flush_symbols (symbol # symbols) s =
     (case flush_pending_disposals_for_symbol symbol date_max s of
        Inl e \<Rightarrow> Inl e
      | Inr s' \<Rightarrow> flush_symbols symbols s')"

definition flush_all_pending :: "string list \<Rightarrow> Section104Pool \<Rightarrow> error + Section104Pool" where
  "flush_all_pending symbols s = flush_symbols symbols s"

text \<open>
  Two predicates for stating what the methods keep true. A pending disposal is
  \<open>flushable\<close> when \<^verbatim>\<open>flush_all_pending\<close> can take it: some quantity remains, the
  original quantity is not zero, and the date plus thirty days is a date before
  \<^verbatim>\<open>date(9999, 12, 31)\<close>. A pool object is \<open>well_formed\<close> when every pending
  disposal has a positive remaining quantity, no larger than its original one, and no
  pool entry has a negative quantity.
\<close>

definition flushable :: "DisposalRecord \<Rightarrow> bool" where
  "flushable d \<longleftrightarrow>
     0 < qty_remaining d \<and> original_qty d \<noteq> 0
     \<and> 1 \<le> d_date d + THIRTY_DAYS \<and> d_date d + THIRTY_DAYS < date_max"

definition well_formed :: "Section104Pool \<Rightarrow> bool" where
  "well_formed s \<longleftrightarrow>
     list_all (\<lambda>d. 0 < qty_remaining d \<and> qty_remaining d \<le> original_qty d) (pending_disposals s)
     \<and> list_all (\<lambda>(symbol, p). 0 \<le> qty p) (pools s)"

subsection \<open>The caller's event stream\<close>

text \<open>
  \<^verbatim>\<open>TrialBalanceGenerator\<close> feeds each trade to the pool, a buy through
  \<^verbatim>\<open>add_acquisition\<close> and a sell through \<^verbatim>\<open>remove_disposal\<close>
  (\<^verbatim>\<open>_process_trade_section_104\<close>), and calls \<^verbatim>\<open>flush_all_pending\<close> at the end.
  A call sequence on one pool object is a list of events, run in order; it stops at
  the first call that raises. \<open>FlushAll\<close> carries the order in which that call
  iterates over the pending symbols.
\<close>

datatype event =
    Acquisition date string decimal decimal
  | Disposal date string decimal decimal
  | FlushAll "string list"

fun apply_event :: "event \<Rightarrow> Section104Pool \<Rightarrow> error + Section104Pool" where
  "apply_event (Acquisition d symbol q c) s = add_acquisition d symbol q c s"
| "apply_event (Disposal d symbol q p) s = remove_disposal d symbol q p s"
| "apply_event (FlushAll symbols) s = flush_all_pending symbols s"

fun run_events :: "event list \<Rightarrow> Section104Pool \<Rightarrow> error + Section104Pool" where
  "run_events [] s = Inr s"
| "run_events (e # es) s =
     (case apply_event e s of Inl err \<Rightarrow> Inl err | Inr s' \<Rightarrow> run_events es s')"

section \<open>FIFO cost of a sale (ibkr\_trial\_balance.py)\<close>

record LotHolding =
  lot_date :: date
  lot_symbol :: string
  lot_quantity :: decimal
  lot_cost_gbp :: decimal
  asset_class :: string

text \<open>
  The loop of \<^verbatim>\<open>_calculate_fifo_cost\<close> over the lots of the symbol, with
  \<^verbatim>\<open>remaining\<close>, \<^verbatim>\<open>total_cost\<close> and \<^verbatim>\<open>new_lots\<close> as accumulators. The division
  by \<^verbatim>\<open>lot.quantity\<close> is reached only when \<^verbatim>\<open>lot.quantity > remaining > 0\<close>, so it
  cannot raise. The fraction and its product with the lot's cost are rounded to the
  context precision; the \<^verbatim>\<open>quantize\<close> here names no rounding mode.
\<close>

fun fifo_loop ::
  "LotHolding list \<Rightarrow> decimal \<Rightarrow> decimal \<Rightarrow> LotHolding list \<Rightarrow> decimal \<times> decimal \<times> LotHolding list" where
  "fifo_loop [] remaining total_cost new_lots = (remaining, total_cost, new_lots)"
| "fifo_loop (lot # lots) remaining total_cost new_lots =
     (if remaining \<le> 0 then fifo_loop lots remaining total_cost (new_lots @ [lot])
      else if lot_quantity lot \<le> remaining
      then fifo_loop lots (remaining - lot_quantity lot) (total_cost + lot_cost_gbp lot) new_lots
      else
        let fraction = context_round (remaining / lot_quantity lot);
            cost_consumed = quantize_half_even cent (context_round (lot_cost_gbp lot * fraction))
        in fifo_loop lots 0 (total_cost + cost_consumed)
             (new_lots @ [lot\<lparr>lot_quantity := lot_quantity lot - remaining,
                               lot_cost_gbp := lot_cost_gbp lot - cost_consumed\<rparr>]))"

text \<open>
  \<^verbatim>\<open>holdings\<close> maps a symbol to its lots, oldest first; \<^verbatim>\<open>holdings.get(symbol, [])\<close>
  reads it and \<^verbatim>\<open>holdings[symbol] = new_lots\<close> stores the lots left. The function
  returns \<^verbatim>\<open>total_cost\<close>; the model returns the new holdings with it.
\<close>

type_synonym holdings = "(string \<times> LotHolding list) list"

definition lots_of :: "holdings \<Rightarrow> string \<Rightarrow> LotHolding list" where
  "lots_of h symbol = (case map_of h symbol of None \<Rightarrow> [] | Some lots \<Rightarrow> lots)"

definition calculate_fifo_cost :: "string \<Rightarrow> decimal \<Rightarrow> holdings \<Rightarrow> decimal \<times> holdings" where
  "calculate_fifo_cost symbol quantity h =
     (case fifo_loop (lots_of h symbol) quantity 0 [] of
        (remaining, total_cost, new_lots) \<Rightarrow> (total_cost, AList.update symbol new_lots h))"

section \<open>Rounding lemmas\<close>

lemma floor_rat_numeral_div [simp]:
  "\<lfloor>(numeral a / numeral b :: rat)\<rfloor> = numeral a div numeral b"
  using floor_divide_of_int_eq [of "numeral a" "numeral b", where ?'a = rat] by simp

lemma floor_rat_one_div [simp]:
  "\<lfloor>(1 / numeral b :: rat)\<rfloor> = 1 div numeral b"
  using floor_divide_of_int_eq [of 1 "numeral b", where ?'a = rat] by simp

lemma floor_rat_neg_numeral_div [simp]:
  "\<lfloor>(- (numeral a / numeral b) :: rat)\<rfloor> = - numeral a div numeral b"
  using floor_divide_of_int_eq [of "- numeral a" "numeral b", where ?'a = rat] by simp

lemma quantize_half_up_nonneg:
  assumes "0 < q" and "0 \<le> x"
  shows "0 \<le> quantize_half_up q x"
proof -
  have "0 \<le> x / q + 1 / 2" using assms by simp
  then have "0 \<le> \<lfloor>x / q + 1 / 2\<rfloor>" by simp
  then show ?thesis using assms by (simp add: quantize_half_up_def)
qed

lemma quantize_half_up_nonpos:
  assumes "0 < q" and "x < 0"
  shows "quantize_half_up q x \<le> 0"
proof -
  have "0 \<le> - x / q + 1 / 2" using assms by simp
  then have "0 \<le> \<lfloor>- x / q + 1 / 2\<rfloor>" by simp
  then show ?thesis using assms by (simp add: quantize_half_up_def)
qed

lemma floor_half_mono:
  fixes a b q :: rat
  assumes "0 < q" and "a \<le> b"
  shows "(of_int \<lfloor>a / q + 1 / 2\<rfloor> :: rat) * q \<le> of_int \<lfloor>b / q + 1 / 2\<rfloor> * q"
proof -
  have "a / q + 1 / 2 \<le> b / q + 1 / 2"
    using assms by (simp add: divide_right_mono)
  then have "\<lfloor>a / q + 1 / 2\<rfloor> \<le> \<lfloor>b / q + 1 / 2\<rfloor>"
    by (rule floor_mono)
  then show ?thesis
    using assms(1) by (simp add: mult_right_mono)
qed

lemma quantize_half_up_mono:
  assumes q: "0 < q" and xy: "x \<le> y"
  shows "quantize_half_up q x \<le> quantize_half_up q y"
proof (cases "x < 0")
  case xneg: True
  show ?thesis
  proof (cases "y < 0")
    case True
    have "- y \<le> - x" using xy by simp
    from floor_half_mono [OF q this] xneg True show ?thesis
      by (simp add: quantize_half_up_def)
  next
    case False
    then have "0 \<le> quantize_half_up q y"
      using q by (simp add: quantize_half_up_nonneg)
    moreover have "quantize_half_up q x \<le> 0"
      using q xneg by (rule quantize_half_up_nonpos)
    ultimately show ?thesis by simp
  qed
next
  case False
  then have "\<not> y < 0" using xy by simp
  with False floor_half_mono [OF q xy] show ?thesis
    by (simp add: quantize_half_up_def)
qed

subsection \<open>How far the context rounding moves a value\<close>

lemma digits_upper: "n < 10 ^ digits n"
proof (induction n rule: digits.induct)
  case (1 n)
  show ?case
  proof (cases "n < 10")
    case True
    then show ?thesis by (simp add: digits.simps)
  next
    case False
    with 1 have "n div 10 < 10 ^ digits (n div 10)" by simp
    then have "n < 10 * 10 ^ digits (n div 10)" by linarith
    with False show ?thesis by (simp add: digits.simps [of n])
  qed
qed

lemma digits_lower: "0 < n \<Longrightarrow> 10 ^ (digits n - 1) \<le> n"
proof (induction n rule: digits.induct)
  case (1 n)
  show ?case
  proof (cases "n < 10")
    case True
    with 1 show ?thesis by (simp add: digits.simps)
  next
    case False
    then have pos: "0 < n div 10" by simp
    with 1 False have "10 ^ (digits (n div 10) - 1) \<le> n div 10" by simp
    then have "10 * 10 ^ (digits (n div 10) - 1) \<le> n" by linarith
    moreover have "0 < digits (n div 10)" by (simp add: digits.simps [of "n div 10"])
    ultimately show ?thesis
      using False by (simp add: digits.simps [of n] power_Suc [symmetric] del: power_Suc)
  qed
qed

lemma digits_pos: "0 < digits n"
  by (simp add: digits.simps [of n])




lemma less_pow10_adjusted:
  assumes "x \<noteq> 0"
  shows "\<bar>x\<bar> < pow10 (adjusted x + 1)"
proof (cases "1 \<le> \<bar>x\<bar>")
  case True
  let ?n = "nat \<lfloor>\<bar>x\<bar>\<rfloor>"
  have "\<bar>x\<bar> < of_int (\<lfloor>\<bar>x\<bar>\<rfloor> + 1)" by linarith
  also have "\<dots> = of_int (int (?n + 1))" using True by simp
  also have "\<dots> = of_nat (?n + 1)" by (simp only: of_int_of_nat_eq)
  also have "\<dots> \<le> of_nat (10 ^ digits ?n)"
    using digits_upper [of ?n] by (simp only: of_nat_le_iff)
  finally have "\<bar>x\<bar> < 10 ^ digits ?n" by simp
  moreover have "adjusted x + 1 = int (digits ?n)"
    using True by (simp add: adjusted_def)
  ultimately show ?thesis by (simp add: pow10_def)
next
  case False
  let ?y = "1 / \<bar>x\<bar>"
  let ?n = "nat (\<lceil>?y\<rceil> - 1)"
  have x: "0 < \<bar>x\<bar>" "\<bar>x\<bar> < 1" using assms False by simp_all
  then have y: "1 < ?y" by simp
  then have c: "2 \<le> \<lceil>?y\<rceil>" by linarith
  then have n: "0 < ?n" by simp
  have "(of_nat (10 ^ (digits ?n - 1)) :: rat) \<le> of_nat ?n"
    using digits_lower [OF n] by (simp only: of_nat_le_iff)
  then have a: "(10::rat) ^ (digits ?n - 1) \<le> of_nat ?n" by simp
  have "int ?n = \<lceil>?y\<rceil> - 1" using c by linarith
  then have "(of_int (int ?n) :: rat) = of_int (\<lceil>?y\<rceil> - 1)" by (simp only:)
  then have b: "(of_nat ?n :: rat) = of_int \<lceil>?y\<rceil> - 1"
    by (simp only: of_int_of_nat_eq of_int_diff of_int_1)
  have "(of_int \<lceil>?y\<rceil> :: rat) - 1 < ?y" by linarith
  with a b have "(10::rat) ^ (digits ?n - 1) < 1 / \<bar>x\<bar>" by linarith
  then have lt: "\<bar>x\<bar> < 1 / 10 ^ (digits ?n - 1)"
    using x(1) by (simp add: field_simps)
  have adj: "adjusted x + 1 = - int (digits ?n - 1)"
    using False digits_pos [of ?n] by (simp add: adjusted_def)
  show ?thesis
  proof (cases "digits ?n = 1")
    case True
    with lt adj show ?thesis by (simp add: pow10_def)
  next
    case False
    with digits_pos [of ?n] have "1 < digits ?n" by linarith
    moreover have "nat (int (digits ?n) - 1) = digits ?n - 1" by arith
    ultimately show ?thesis using lt adj by (simp add: pow10_def)
  qed
qed

text \<open>
  So \<open>adjusted x\<close> is the exponent of the leading digit, and \<open>context_round\<close>
  keeps 28 significant digits. Some values, as Python prints them:
\<close>

lemma context_round_examples:
  "context_round (29 / 24) = 1.208333333333333333333333333"
  "context_round (1.208333333333333333333333333 * 3) = 3.624999999999999999999999999"
  "context_round (1 / 24) = 0.04166666666666666666666666667"
  "context_round (2 / 3) = 0.6666666666666666666666666667"
  "context_round 10.006 = 10.006"
  by (simp_all add: context_round_def adjusted_def pow10_def quantize_half_even_def
      digits.simps ceiling_def Let_def)



lemma quantize_half_up_error:
  assumes "0 < q"
  shows "\<bar>quantize_half_up q x - x\<bar> \<le> q / 2"
proof -
  have fl: "\<bar>of_int \<lfloor>y / q + 1 / 2\<rfloor> * q - y\<bar> \<le> q / 2" for y :: rat
  proof -
    define z where "z = y / q"
    have zq: "z * q = y" using assms by (simp add: z_def)
    have "\<bar>of_int \<lfloor>z + 1 / 2\<rfloor> - z\<bar> \<le> 1 / 2" by linarith
    then have "\<bar>of_int \<lfloor>z + 1 / 2\<rfloor> - z\<bar> * q \<le> 1 / 2 * q"
      using assms by (intro mult_right_mono) simp_all
    moreover have "\<bar>of_int \<lfloor>z + 1 / 2\<rfloor> - z\<bar> * q = \<bar>(of_int \<lfloor>z + 1 / 2\<rfloor> - z) * q\<bar>"
      using assms by (simp add: abs_mult)
    moreover have "(of_int \<lfloor>z + 1 / 2\<rfloor> - z) * q = of_int \<lfloor>z + 1 / 2\<rfloor> * q - y"
      by (simp only: left_diff_distrib zq)
    ultimately show ?thesis by (simp add: z_def)
  qed
  show ?thesis
  proof (cases "x < 0")
    case True
    have "\<bar>- (of_int \<lfloor>- x / q + 1 / 2\<rfloor> * q) - x\<bar> = \<bar>of_int \<lfloor>- x / q + 1 / 2\<rfloor> * q - (- x)\<bar>"
      by linarith
    with fl [of "- x"] True show ?thesis by (simp add: quantize_half_up_def)
  next
    case False
    with fl [of x] show ?thesis by (simp add: quantize_half_up_def)
  qed
qed


section \<open>Properties of the tax computation\<close>

lemma band_tax_mono:
  assumes "0 < p" and "p \<le> q"
  shows "(if p \<le> 50000 then small_profits_tax p
          else if 250000 \<le> p then main_rate_tax p else marginal_relief_tax p)
       \<le> (if q \<le> 50000 then small_profits_tax q
          else if 250000 \<le> q then main_rate_tax q else marginal_relief_tax q)"
  using assms
  unfolding small_profits_tax_def main_rate_tax_def marginal_relief_tax_def Let_def
  by (auto simp: field_simps)

lemma band_tax_nonneg:
  assumes "0 < q"
  shows "0 \<le> (if q \<le> 50000 then small_profits_tax q
          else if 250000 \<le> q then main_rate_tax q else marginal_relief_tax q)"
  using assms
  unfolding small_profits_tax_def main_rate_tax_def marginal_relief_tax_def Let_def
  by (auto simp: field_simps)

text \<open>
  C8. When interest was paid (\<^verbatim>\<open>interest_paid > 0\<close>): with taxable earnings, the
  interest received less the broker fees and the other management expenses, at or
  below zero, no interest is allowable, all of it is disallowed and the warning is
  attached; otherwise the allowable interest is the lesser of the interest paid and
  30% of the earnings rounded half-up to the penny, and the rest is disallowed.
\<close>

theorem interest_relief_rule:
  assumes "0 < acc_debit accs INTEREST_PAID"
  shows "let paid = acc_debit accs INTEREST_PAID;
             earnings = acc_credit accs INTEREST_RECEIVED - (acc_debit accs BROKER_FEES + other);
             r = calculate_interest_relief accs other
         in if earnings \<le> 0
            then allowable_interest r = 0 \<and> disallowed_interest r = paid \<and> warning r \<noteq> None
            else allowable_interest r = min paid (quantize_half_up cent (earnings * (30 / 100)))
               \<and> disallowed_interest r = paid - allowable_interest r"
  using assms
  by (simp add: calculate_interest_relief_def calculate_management_expenses_def Let_def min_def)

theorem interest_relief_rule_witness:
  "allowable_interest
     (calculate_interest_relief
        (map_of [(''4100'', \<lparr>debit = 0, credit = 1604.52\<rparr>),
                 (''5200'', \<lparr>debit = 1120.26, credit = 0\<rparr>),
                 (''5600'', \<lparr>debit = 8743.42, credit = 0\<rparr>)]) 0) = 145.28
   \<and> disallowed_interest
     (calculate_interest_relief
        (map_of [(''4100'', \<lparr>debit = 0, credit = 1604.52\<rparr>),
                 (''5200'', \<lparr>debit = 1120.26, credit = 0\<rparr>),
                 (''5600'', \<lparr>debit = 8743.42, credit = 0\<rparr>)]) 0) = 8598.14"
  using interest_relief_rule
    [of "map_of [(''4100'', \<lparr>debit = 0, credit = 1604.52\<rparr>),
                 (''5200'', \<lparr>debit = 1120.26, credit = 0\<rparr>),
                 (''5600'', \<lparr>debit = 8743.42, credit = 0\<rparr>)]" 0]
  by (simp add: acc_debit_def acc_credit_def quantize_half_up_def Let_def)

lemma liability_near_band_formula:
  "\<bar>calculate_corporation_tax p -
      (if p \<le> 0 then 0 else if p \<le> 50000 then small_profits_tax p
       else if 250000 \<le> p then main_rate_tax p else marginal_relief_tax p)\<bar> \<le> 1 / 200"
proof (cases "p \<le> 0")
  case True
  then show ?thesis by (simp add: calculate_corporation_tax_def)
next
  case False
  then show ?thesis
    using quantize_half_up_error [of cent
        "if p \<le> 50000 then small_profits_tax p
         else if 250000 \<le> p then main_rate_tax p else marginal_relief_tax p"]
    by (simp add: calculate_corporation_tax_def Let_def)
qed

lemma band_formula_slope:
  assumes "p \<le> q"
  shows "(if q \<le> 0 then 0 else if q \<le> 50000 then small_profits_tax q
          else if 250000 \<le> q then main_rate_tax q else marginal_relief_tax q)
       - (if p \<le> 0 then 0 else if p \<le> 50000 then small_profits_tax p
          else if 250000 \<le> p then main_rate_tax p else marginal_relief_tax p)
       \<le> 53 / 200 * (q - p)"
    and "0 \<le> (if q \<le> 0 then 0 else if q \<le> 50000 then small_profits_tax q
          else if 250000 \<le> q then main_rate_tax q else marginal_relief_tax q)
       - (if p \<le> 0 then 0 else if p \<le> 50000 then small_profits_tax p
          else if 250000 \<le> p then main_rate_tax p else marginal_relief_tax p)"
  using assms
  unfolding small_profits_tax_def main_rate_tax_def marginal_relief_tax_def Let_def
  by (auto simp: field_simps)

text \<open>
  C9. \<^verbatim>\<open>calculate_corporation_tax\<close> takes 19% of the profit up to 50000, the main
  rate less the marginal relief strictly between 50000 and 250000, and 25% of the
  profit from 250000 on, each rounded half-up to the penny. The formulas on the two
  sides of each threshold agree there: 9500 at 50000 and 62500 at 250000. So the
  liability has no jump: two profits never differ in liability by more than 26.5% of
  their difference plus one penny of rounding.
\<close>

theorem tax_bands_continuous:
  "(\<forall>p. 0 < p \<and> p \<le> 50000 \<longrightarrow>
        calculate_corporation_tax p = quantize_half_up cent (p * (19 / 100)))
   \<and> (\<forall>p. 50000 < p \<and> p < 250000 \<longrightarrow>
        calculate_corporation_tax p
          = quantize_half_up cent (p * (25 / 100) - (250000 - p) * 3 / 200))
   \<and> (\<forall>p. 250000 \<le> p \<longrightarrow>
        calculate_corporation_tax p = quantize_half_up cent (p * (25 / 100)))
   \<and> (50000 :: decimal) * (19 / 100) = 50000 * (25 / 100) - (250000 - 50000) * 3 / 200
   \<and> (250000 :: decimal) * (25 / 100) - (250000 - 250000) * 3 / 200 = 250000 * (25 / 100)
   \<and> small_profits_tax 50000 = marginal_relief_tax 50000
   \<and> marginal_relief_tax 250000 = main_rate_tax 250000
   \<and> (\<forall>p q. \<bar>calculate_corporation_tax q - calculate_corporation_tax p\<bar>
              \<le> 53 / 200 * \<bar>q - p\<bar> + 1 / 100)"
proof (intro conjI allI impI)
  fix p q :: decimal
  have near: "\<bar>calculate_corporation_tax q - calculate_corporation_tax p\<bar>
      \<le> 53 / 200 * \<bar>q - p\<bar> + 1 / 100" if "p \<le> q" for p q
    using liability_near_band_formula [of p] liability_near_band_formula [of q]
      band_formula_slope [OF that] that
    by linarith
  show "\<bar>calculate_corporation_tax q - calculate_corporation_tax p\<bar>
      \<le> 53 / 200 * \<bar>q - p\<bar> + 1 / 100"
  proof (cases "p \<le> q")
    case True
    then show ?thesis by (rule near)
  next
    case False
    then have "q \<le> p" by simp
    from near [OF this] show ?thesis by (simp add: abs_minus_commute)
  qed
qed (simp_all add: calculate_corporation_tax_def small_profits_tax_def main_rate_tax_def
      marginal_relief_tax_def Let_def)

theorem tax_bands_continuous_witness:
  "calculate_corporation_tax 49999.99 = 9500
   \<and> calculate_corporation_tax 50000 = 9500
   \<and> calculate_corporation_tax 50000.01 = 9500
   \<and> calculate_corporation_tax 249999.99 = 62500
   \<and> calculate_corporation_tax 250000 = 62500
   \<and> calculate_corporation_tax 250000.01 = 62500"
proof -
  note bands = tax_bands_continuous
  have "calculate_corporation_tax 49999.99 = quantize_half_up cent (49999.99 * (19 / 100))"
    and "calculate_corporation_tax 50000 = quantize_half_up cent (50000 * (19 / 100))"
    using bands by simp_all
  moreover have "calculate_corporation_tax 50000.01
        = quantize_half_up cent (50000.01 * (25 / 100) - (250000 - 50000.01) * 3 / 200)"
    and "calculate_corporation_tax 249999.99
        = quantize_half_up cent (249999.99 * (25 / 100) - (250000 - 249999.99) * 3 / 200)"
    using bands by simp_all
  moreover have "calculate_corporation_tax 250000 = quantize_half_up cent (250000 * (25 / 100))"
    and "calculate_corporation_tax 250000.01 = quantize_half_up cent (250000.01 * (25 / 100))"
    using bands by simp_all
  ultimately show ?thesis
    by (simp add: quantize_half_up_def)
qed

text \<open>
  C10. The Corporation Tax liability is monotone in the taxable profit: a profit that
  is no smaller never gives a smaller liability.
\<close>

theorem corporation_tax_monotone:
  assumes "p \<le> q"
  shows "calculate_corporation_tax p \<le> calculate_corporation_tax q"
proof (cases "p \<le> 0")
  case True
  show ?thesis
  proof (cases "q \<le> 0")
    case True
    with \<open>p \<le> 0\<close> show ?thesis by (simp add: calculate_corporation_tax_def)
  next
    case False
    then have "0 < q" by simp
    from band_tax_nonneg [OF this] have "0 \<le> calculate_corporation_tax q"
      using False by (simp add: calculate_corporation_tax_def Let_def quantize_half_up_nonneg)
    with True show ?thesis by (simp add: calculate_corporation_tax_def)
  qed
next
  case False
  then have p: "0 < p" and q: "\<not> q \<le> 0" using assms by simp_all
  have "quantize_half_up cent
          (if p \<le> 50000 then small_profits_tax p
           else if 250000 \<le> p then main_rate_tax p else marginal_relief_tax p)
      \<le> quantize_half_up cent
          (if q \<le> 50000 then small_profits_tax q
           else if 250000 \<le> q then main_rate_tax q else marginal_relief_tax q)"
    by (rule quantize_half_up_mono) (simp, rule band_tax_mono [OF p assms])
  with False q show ?thesis
    by (simp add: calculate_corporation_tax_def Let_def)
qed

theorem corporation_tax_monotone_witness:
  "calculate_corporation_tax 49999 = 9499.81 \<and> calculate_corporation_tax 50001 = 9500.27
   \<and> calculate_corporation_tax 49999 \<le> calculate_corporation_tax 50001"
  using corporation_tax_monotone [of 49999 50001]
  by (simp add: calculate_corporation_tax_def small_profits_tax_def marginal_relief_tax_def
      quantize_half_up_def Let_def)

section \<open>Properties of the FIFO cost\<close>

lemma fifo_loop_under_supply:
  assumes "\<forall>lot \<in> set lots. 0 \<le> lot_quantity lot"
    and "sum_list (map lot_quantity lots) < remaining"
  shows "fifo_loop lots remaining total_cost new_lots =
           (remaining - sum_list (map lot_quantity lots),
            total_cost + sum_list (map lot_cost_gbp lots), new_lots)"
  using assms
proof (induction lots arbitrary: remaining total_cost)
  case Nil
  then show ?case by simp
next
  case (Cons lot lots)
  have rest: "0 \<le> sum_list (map lot_quantity lots)"
    using Cons.prems(1) by (intro sum_list_nonneg) auto
  have head: "0 \<le> lot_quantity lot"
    using Cons.prems(1) by simp
  from Cons.prems(2) rest head have pos: "\<not> remaining \<le> 0" and fits: "lot_quantity lot \<le> remaining"
    by simp_all
  have "sum_list (map lot_quantity lots) < remaining - lot_quantity lot"
    using Cons.prems(2) by simp
  with Cons.IH [of "remaining - lot_quantity lot" "total_cost + lot_cost_gbp lot"] Cons.prems(1)
  show ?case using pos fits by (simp add: algebra_simps)
qed

lemma fifo_loop_keeps_nonneg:
  assumes "\<forall>lot \<in> set lots. 0 \<le> lot_quantity lot"
    and "\<forall>lot \<in> set new_lots. 0 \<le> lot_quantity lot"
  shows "\<forall>lot \<in> set (snd (snd (fifo_loop lots remaining total_cost new_lots))). 0 \<le> lot_quantity lot"
  using assms
  by (induction lots remaining total_cost new_lots rule: fifo_loop.induct) (auto simp: Let_def)

text \<open>
  A partly consumed lot: of a lot of 24 units bought for 159, one unit is sold. The
  fraction rounds to 0.04166666666666666666666666667, its product with 159 to
  6.625000000000000000000000001, and the cost consumed is 6.63.
\<close>

lemma fifo_partial_lot_cost:
  "quantize_half_even cent (context_round (159 * context_round (1 / 24))) = 6.63"
proof -
  have product: "context_round (159 * context_round (1 / 24)) = 6.625000000000000000000000001"
    by (simp add: context_round_def adjusted_def pow10_def quantize_half_even_def
        digits.simps ceiling_def Let_def)
  show ?thesis
    by (simp add: product quantize_half_even_def Let_def)
qed

lemma fifo_partial_lot_example:
  "calculate_fifo_cost ''AAPL'' 1
     [(''AAPL'', [\<lparr>lot_date = 739403, lot_symbol = ''AAPL'', lot_quantity = 24,
                   lot_cost_gbp = 159, asset_class = ''STK''\<rparr>])]
   = (6.63, [(''AAPL'', [\<lparr>lot_date = 739403, lot_symbol = ''AAPL'', lot_quantity = 23,
                           lot_cost_gbp = 152.37, asset_class = ''STK''\<rparr>])])"
  by (simp add: calculate_fifo_cost_def lots_of_def fifo_partial_lot_cost Let_def)

text \<open>
  C6. A sale that asks for more than the lots of the symbol hold consumes every lot:
  the cost returned is the total cost of the lots, no lot of the symbol is left, and
  nothing is raised (the function has no failing branch). The quantities of the lots
  are not negative: \<^verbatim>\<open>_process_trade\<close> records a lot with the trade's quantity,
  which the parser stores as an absolute value, and a partly consumed lot keeps a
  positive rest (\<open>fifo_loop_keeps_nonneg\<close>).
\<close>

theorem fifo_under_supply:
  assumes "\<forall>lot \<in> set (lots_of h symbol). 0 \<le> lot_quantity lot"
    and "sum_list (map lot_quantity (lots_of h symbol)) < quantity"
  shows "calculate_fifo_cost symbol quantity h =
           (sum_list (map lot_cost_gbp (lots_of h symbol)), AList.update symbol [] h)
       \<and> lots_of (snd (calculate_fifo_cost symbol quantity h)) symbol = []"
  using fifo_loop_under_supply [OF assms, of 0 "[]"]
  by (simp add: calculate_fifo_cost_def lots_of_def update_conv')

theorem fifo_under_supply_witness:
  "calculate_fifo_cost ''AAPL'' 20
     [(''AAPL'', [\<lparr>lot_date = 739403, lot_symbol = ''AAPL'', lot_quantity = 10,
                   lot_cost_gbp = 1000, asset_class = ''STK''\<rparr>,
                  \<lparr>lot_date = 739417, lot_symbol = ''AAPL'', lot_quantity = 5,
                   lot_cost_gbp = 600, asset_class = ''STK''\<rparr>])]
   = (1600, [(''AAPL'', [])])"
  using fifo_under_supply [of
     "[(''AAPL'', [\<lparr>lot_date = 739403, lot_symbol = ''AAPL'', lot_quantity = 10,
                   lot_cost_gbp = 1000, asset_class = ''STK''\<rparr>,
                  \<lparr>lot_date = 739417, lot_symbol = ''AAPL'', lot_quantity = 5,
                   lot_cost_gbp = 600, asset_class = ''STK''\<rparr>])]" "''AAPL''" 20]
  by (simp add: lots_of_def)

section \<open>Properties of the Section 104 pool\<close>

lemmas s104_defs = add_acquisition_def remove_disposal_def flush_pending_disposals_for_symbol_def
  flush_all_pending_def flush_step_def match_step_def flush_from_pool_def same_day_of_def
  thirty_day_of_def init_pool_def pool_of_def default_pool_def date_add_def valid_date_def
  date_max_def decimal_div_def quantize_half_up_def quantize_half_even_def context_round_def
  adjusted_def pow10_def digits.simps ceiling_def Let_def

subsection \<open>What a flush takes from the pool\<close>




lemma flush_step_total:
  assumes "original_qty disp \<noteq> 0" and "valid_date (d_date disp + THIRTY_DAYS)"
  shows "\<exists>acc'. flush_step symbol before_date disp acc = Inr acc'"
proof -
  obtain p np out ws where "acc = (p, np, out, ws)"
    by (cases acc rule: prod_cases4)
  with assms show ?thesis
    by (simp add: flush_step_def date_add_def decimal_div_def Let_def split: prod.splits)
qed

lemma flush_loop_total:
  assumes "\<forall>disp \<in> set ds. original_qty disp \<noteq> 0 \<and> valid_date (d_date disp + THIRTY_DAYS)"
  shows "\<exists>acc'. flush_loop symbol before_date ds acc = Inr acc'"
  using assms
proof (induction ds arbitrary: acc)
  case Nil
  show ?case by (rule exI [of _ acc]) simp
next
  case (Cons disp ds)
  then obtain acc1 where "flush_step symbol before_date disp acc = Inr acc1"
    using flush_step_total [of disp symbol before_date acc] by auto
  with Cons show ?case by simp
qed

lemma flush_for_symbol_total:
  assumes "\<forall>disp \<in> set (pending_disposals s).
             original_qty disp \<noteq> 0 \<and> valid_date (d_date disp + THIRTY_DAYS)"
  shows "\<exists>s'. flush_pending_disposals_for_symbol symbol before_date s = Inr s'"
proof -
  obtain acc' where "flush_loop symbol before_date (pending_disposals s)
      (pool_of (pools s) symbol, [], [], []) = Inr acc'"
    using flush_loop_total [OF assms] by blast
  then show ?thesis
    by (cases acc' rule: prod_cases4) (simp add: flush_pending_disposals_for_symbol_def)
qed

text \<open>
  What a flush does when the pool holds too little. If the pool's quantity is at or
  below zero the flush costs nothing, prints the warning and leaves the pool as it
  is. If the pool holds a positive quantity smaller than the one flushed, the flush
  prints no warning: the cost is the average unit cost times the whole quantity
  flushed, rounded; the pool's quantity becomes zero and its cost is clamped at zero.
  Neither raises: flushing a symbol returns normally whenever each pending disposal
  has a non-zero original quantity and a date that thirty days can be added to.
\<close>

theorem pool_underflow_handling:
  "(qty p \<le> 0 \<longrightarrow> flush_from_pool p q symbol = (0, p, [PoolEmpty q symbol]))
   \<and> (0 < qty p \<and> qty p < q \<longrightarrow>
        (case flush_from_pool p q symbol of
           (c, p', ws) \<Rightarrow>
             c = quantize_half_up cent (context_round (context_round (cost p / qty p) * q))
           \<and> ws = []
           \<and> qty p' = 0
           \<and> cost p' = max 0 (cost p - c)))
   \<and> ((\<forall>disp \<in> set (pending_disposals s).
          original_qty disp \<noteq> 0 \<and> valid_date (d_date disp + THIRTY_DAYS)) \<longrightarrow>
        (\<exists>s'. flush_pending_disposals_for_symbol symbol before_date s = Inr s'))"
proof (intro conjI impI)
  show "flush_from_pool p q symbol = (0, p, [PoolEmpty q symbol])" if "qty p \<le> 0"
    using that by (simp add: flush_from_pool_def)
  show "case flush_from_pool p q symbol of
           (c, p', ws) \<Rightarrow>
             c = quantize_half_up cent (context_round (context_round (cost p / qty p) * q))
           \<and> ws = []
           \<and> qty p' = 0
           \<and> cost p' = max 0 (cost p - c)" if "0 < qty p \<and> qty p < q"
    using that by (auto simp: flush_from_pool_def Let_def max_def)
  show "\<exists>s'. flush_pending_disposals_for_symbol symbol before_date s = Inr s'"
    if "\<forall>disp \<in> set (pending_disposals s).
          original_qty disp \<noteq> 0 \<and> valid_date (d_date disp + THIRTY_DAYS)"
    using that by (rule flush_for_symbol_total)
qed

theorem pool_underflow_handling_witness:
  "flush_from_pool \<lparr>qty = 0, cost = 0\<rparr> 100 ''XYZ'' = (0, \<lparr>qty = 0, cost = 0\<rparr>, [PoolEmpty 100 ''XYZ''])
   \<and> flush_from_pool \<lparr>qty = 50, cost = 100\<rparr> 100 ''XYZ'' = (200, \<lparr>qty = 0, cost = 0\<rparr>, [])
   \<and> flush_pending_disposals_for_symbol ''XYZ'' 3652059
        \<lparr>pools = [], pending_disposals =
           [\<lparr>d_date = 739503, d_symbol = ''XYZ'', qty_remaining = 100, original_qty = 100,
             total_proceeds_gbp = 500\<rparr>], disposals = [], stderr = []\<rparr>
       = Inr \<lparr>pools = [(''XYZ'', \<lparr>qty = 0, cost = 0\<rparr>)], pending_disposals = [],
              disposals = [\<lparr>m_date = 739503, m_symbol = ''XYZ'', m_quantity = 100,
                            proceeds_gbp = 500, cost_gbp = 0, gain_loss_gbp = 500,
                            matching_rule = ''section_104''\<rparr>],
              stderr = [PoolEmpty 100 ''XYZ'']\<rparr>"
  using pool_underflow_handling [of "\<lparr>qty = 0, cost = 0\<rparr>" 100 "''XYZ''"
      "\<lparr>pools = [], pending_disposals =
           [\<lparr>d_date = 739503, d_symbol = ''XYZ'', qty_remaining = 100, original_qty = 100,
             total_proceeds_gbp = 500\<rparr>], disposals = [], stderr = []\<rparr>" 3652059]
    pool_underflow_handling [of "\<lparr>qty = 50, cost = 100\<rparr>" 100 "''XYZ''" init_pool 3652059]
  by (simp add: s104_defs)

text \<open>
  C5 fails for a pool that is only partly sufficient. With 50 units bought for 100
  and 100 units sold and flushed, nothing is written to \<^verbatim>\<open>stderr\<close> and the cost
  recorded is 200, twice what the pool held: the 50 units the pool could not cover
  are costed at the average and not at zero. The empty pool of the same code path
  does warn and does cost nothing.
\<close>

theorem partial_underflow_no_warning:
  "run_events [Acquisition 739403 ''XYZ'' 50 100, Disposal 739503 ''XYZ'' 100 500,
               FlushAll [''XYZ'']] init_pool
     = Inr \<lparr>pools = [(''XYZ'', \<lparr>qty = 0, cost = 0\<rparr>)], pending_disposals = [],
            disposals = [\<lparr>m_date = 739503, m_symbol = ''XYZ'', m_quantity = 100,
                          proceeds_gbp = 500, cost_gbp = 200, gain_loss_gbp = 300,
                          matching_rule = ''section_104''\<rparr>],
            stderr = []\<rparr>
   \<and> run_events [Disposal 739503 ''XYZ'' 100 500, FlushAll [''XYZ'']] init_pool
     = Inr \<lparr>pools = [(''XYZ'', \<lparr>qty = 0, cost = 0\<rparr>)], pending_disposals = [],
            disposals = [\<lparr>m_date = 739503, m_symbol = ''XYZ'', m_quantity = 100,
                          proceeds_gbp = 500, cost_gbp = 0, gain_loss_gbp = 500,
                          matching_rule = ''section_104''\<rparr>],
            stderr = [PoolEmpty 100 ''XYZ'']\<rparr>"
  by (simp add: s104_defs)

subsection \<open>Quantities that are not positive\<close>

text \<open>
  C7, as the code has it. An acquisition or a disposal whose quantity is negative or
  zero is ignored: the call returns normally and the state is unchanged. Nothing is
  raised to the caller.
\<close>

theorem nonpositive_quantity_ignored:
  assumes "q \<le> 0"
  shows "add_acquisition d symbol q c s = Inr s \<and> remove_disposal d symbol q p s = Inr s"
  using assms by (simp add: add_acquisition_def remove_disposal_def)

theorem nonpositive_quantity_ignored_witness:
  "add_acquisition 739403 ''AAPL'' 0 15000 init_pool = Inr init_pool
   \<and> remove_disposal 739403 ''AAPL'' 0 15000 init_pool = Inr init_pool"
  using nonpositive_quantity_ignored [of 0 739403 "''AAPL''" 15000 init_pool 15000]
  by simp

text \<open>
  C7 as stated fails: an acquisition and a disposal of quantity -100 both return
  without a failure, leaving the state as it was.
\<close>

theorem negative_quantity_counterexample:
  "add_acquisition 739403 ''AAPL'' (- 100) 15000 init_pool = Inr init_pool
   \<and> remove_disposal 739433 ''AAPL'' (- 100) 18000 init_pool = Inr init_pool"
  by (simp add: add_acquisition_def remove_disposal_def)

subsection \<open>Flushing a symbol that has nothing pending\<close>

lemma flush_loop_other_symbol:
  assumes "\<forall>d \<in> set ds. d_symbol d \<noteq> symbol"
  shows "flush_loop symbol before_date ds (p, new_pending, out, warns)
           = Inr (p, new_pending @ ds, out, warns)"
  using assms
  by (induction ds arbitrary: new_pending) (simp_all add: flush_step_def)

lemma flush_loop_append:
  "flush_loop symbol before_date (xs @ ys) acc =
     (case flush_loop symbol before_date xs acc of
        Inl e \<Rightarrow> Inl e
      | Inr acc' \<Rightarrow> flush_loop symbol before_date ys acc')"
  by (induction xs arbitrary: acc) (simp_all split: sum.splits)

lemma pool_of_update:
  "pool_of (AList.update symbol p ps) symbol' = (if symbol' = symbol then p else pool_of ps symbol')"
  by (simp add: pool_of_def update_conv')

lemma flush_nothing_pending:
  assumes "\<forall>d \<in> set (pending_disposals s). d_symbol d \<noteq> symbol"
  shows "flush_pending_disposals_for_symbol symbol before_date s
           = Inr (s\<lparr>pools := AList.update symbol (pool_of (pools s) symbol) (pools s)\<rparr>)"
  using flush_loop_other_symbol [OF assms, of before_date "pool_of (pools s) symbol" "[]" "[]" "[]"]
  by (simp add: flush_pending_disposals_for_symbol_def)

lemma remove_disposal_nothing_pending:
  assumes "0 < q" and "\<forall>d \<in> set (pending_disposals s). d_symbol d \<noteq> symbol"
  shows "remove_disposal disp_date symbol q proceeds s
           = Inr (s\<lparr>pools := AList.update symbol (pool_of (pools s) symbol) (pools s),
                    pending_disposals := pending_disposals s @
                      [\<lparr>d_date = disp_date, d_symbol = symbol, qty_remaining = q,
                        original_qty = q, total_proceeds_gbp = proceeds\<rparr>]\<rparr>)"
  using assms by (simp add: remove_disposal_def flush_nothing_pending)

subsection \<open>An acquisition that meets one pending disposal of its symbol\<close>

lemma filter_enumerate_other_symbol:
  assumes "\<forall>d \<in> set ps. d_symbol d \<noteq> symbol"
  shows "filter (\<lambda>(i, d). d_symbol d = symbol \<and> Q i d) (enumerate n ps) = []"
  using assms by (induction ps arbitrary: n) simp_all

lemma same_day_of_last:
  assumes "\<forall>d \<in> set ps. d_symbol d \<noteq> symbol" and "d_symbol r = symbol"
  shows "same_day_of acq_date symbol (ps @ [r])
           = (if d_date r = acq_date then [(length ps, r)] else [])"
  using assms filter_enumerate_other_symbol [OF assms(1), of "\<lambda>i d. d_date d = acq_date" 0]
  by (simp add: same_day_of_def enumerate_append_eq)

lemma thirty_day_of_last:
  assumes "\<forall>d \<in> set ps. d_symbol d \<noteq> symbol" and "d_symbol r = symbol"
  shows "thirty_day_of acq_date symbol (ps @ [r]) same_day
           = (if d_date r < acq_date \<and> acq_date - d_date r \<le> THIRTY_DAYS
                 \<and> (length ps, r) \<notin> set same_day
              then [(length ps, r)] else [])"
  using assms filter_enumerate_other_symbol [OF assms(1),
      of "\<lambda>i d. d_date d < acq_date \<and> acq_date - d_date d \<le> THIRTY_DAYS \<and> (i, d) \<notin> set same_day" 0]
  by (simp add: thirty_day_of_def enumerate_append_eq)

lemma to_match_last:
  assumes "\<forall>d \<in> set ps. d_symbol d \<noteq> symbol" and "d_symbol r = symbol"
  shows "map fst (same_day_of acq_date symbol (ps @ [r]) @
            thirty_day_of acq_date symbol (ps @ [r]) (same_day_of acq_date symbol (ps @ [r])))
           = (if d_date r = acq_date \<or> (d_date r < acq_date \<and> acq_date - d_date r \<le> THIRTY_DAYS)
              then [length ps] else [])"
  using assms by (auto simp: same_day_of_last thirty_day_of_last)

text \<open>
  The whole of \<^verbatim>\<open>add_acquisition\<close> when the last pending disposal is the only one
  of the symbol and lies on the acquisition's day or in the thirty days before it:
  the lesser of the two quantities is matched, at the rounded unit cost.
\<close>

lemma add_acquisition_one_pending:
  assumes q: "0 < q"
    and others: "\<forall>d \<in> set ps. d_symbol d \<noteq> symbol"
    and pending: "pending_disposals s = ps @ [r]"
    and r: "d_symbol r = symbol" "0 < qty_remaining r" "original_qty r \<noteq> 0"
    and window: "d_date r = acq_date \<or> (d_date r < acq_date \<and> acq_date - d_date r \<le> THIRTY_DAYS)"
  shows "add_acquisition acq_date symbol q c s =
     (let m = min q (qty_remaining r);
          match_cost = quantize_half_up cent (quantize_half_up unit_quantum (c / q) * m);
          match_proceeds = quantize_half_up cent (total_proceeds_gbp r * m / original_qty r)
      in Inr (s\<lparr>pools :=
                  (if 0 < q - m
                   then AList.update symbol
                          ((pool_of (pools s) symbol)
                             \<lparr>qty := qty (pool_of (pools s) symbol) + (q - m),
                              cost := cost (pool_of (pools s) symbol) + (c - match_cost)\<rparr>)
                          (pools s)
                   else pools s),
                pending_disposals :=
                  filter (\<lambda>d. 0 < qty_remaining d) ps @
                  (if 0 < qty_remaining r - m then [r\<lparr>qty_remaining := qty_remaining r - m\<rparr>] else []),
                disposals := disposals s @
                  [\<lparr>m_date = d_date r, m_symbol = symbol, m_quantity = m,
                    proceeds_gbp = match_proceeds, cost_gbp = match_cost,
                    gain_loss_gbp = match_proceeds - match_cost,
                    matching_rule = (if d_date r = acq_date then ''same_day'' else ''thirty_day'')\<rparr>]\<rparr>))"
proof -
  have tm: "map fst (same_day_of acq_date symbol (pending_disposals s) @
            thirty_day_of acq_date symbol (pending_disposals s)
              (same_day_of acq_date symbol (pending_disposals s))) = [length ps]"
    using to_match_last [OF others r(1), of acq_date] window pending by simp
  show ?thesis
    using q r(2,3) unfolding add_acquisition_def Let_def tm
    by (simp add: pending match_step_def decimal_div_def Let_def)
qed

lemma add_acquisition_no_match:
  assumes q: "0 < q"
    and others: "\<forall>d \<in> set ps. d_symbol d \<noteq> symbol"
    and pending: "pending_disposals s = ps @ [r]"
    and r: "d_symbol r = symbol"
    and window: "d_date r < acq_date" "THIRTY_DAYS < acq_date - d_date r"
  shows "add_acquisition acq_date symbol q c s =
     Inr (s\<lparr>pools := AList.update symbol
                  ((pool_of (pools s) symbol)
                     \<lparr>qty := qty (pool_of (pools s) symbol) + q,
                      cost := cost (pool_of (pools s) symbol) + c\<rparr>)
                  (pools s),
            pending_disposals := filter (\<lambda>d. 0 < qty_remaining d) (ps @ [r])\<rparr>)"
proof -
  have tm: "map fst (same_day_of acq_date symbol (pending_disposals s) @
            thirty_day_of acq_date symbol (pending_disposals s)
              (same_day_of acq_date symbol (pending_disposals s))) = []"
    using others r window by (simp add: pending same_day_of_last thirty_day_of_last)
  show ?thesis
    using q unfolding add_acquisition_def Let_def tm
    by (simp add: pending)
qed

subsection \<open>Same-day and thirty-day matching\<close>

lemma pool_update_all:
  "(p :: pool)\<lparr>qty := a, cost := b\<rparr> = \<lparr>qty = a, cost = b\<rparr>"
  by (cases p) simp

text \<open>
  C1, as the code has it. A disposal of quantity \<open>Q\<close> on day \<open>D\<close>, recorded when
  nothing of the instrument is pending, followed by an acquisition of \<open>Q\<close> on the
  same day: exactly one matched disposal is recorded, tagged \<^verbatim>\<open>same_day\<close>, of
  quantity \<open>Q\<close>. Its cost is the acquisition's unit cost (cost over quantity,
  rounded half-up to four places) times \<open>Q\<close>, rounded half-up to the penny; its
  proceeds are the disposal's proceeds rounded half-up to the penny. Nothing is
  credited to the pool: the instrument's pool entry is what it was before the two
  events, so its quantity is zero when the pool held none.
\<close>

theorem same_day_match:
  assumes "0 < Q" and "\<forall>d \<in> set (pending_disposals s). d_symbol d \<noteq> X"
  shows "run_events [Disposal D X Q P, Acquisition D X Q C] s =
     Inr (s\<lparr>pools := AList.update X (pool_of (pools s) X) (pools s),
            pending_disposals := filter (\<lambda>d. 0 < qty_remaining d) (pending_disposals s),
            disposals := disposals s @
              [\<lparr>m_date = D, m_symbol = X, m_quantity = Q,
                proceeds_gbp = quantize_half_up cent P,
                cost_gbp = quantize_half_up cent (quantize_half_up unit_quantum (C / Q) * Q),
                gain_loss_gbp = quantize_half_up cent P
                  - quantize_half_up cent (quantize_half_up unit_quantum (C / Q) * Q),
                matching_rule = ''same_day''\<rparr>]\<rparr>)
   \<and> pool_of (AList.update X (pool_of (pools s) X) (pools s)) X = pool_of (pools s) X"
proof -
  let ?r = "\<lparr>d_date = D, d_symbol = X, qty_remaining = Q, original_qty = Q,
             total_proceeds_gbp = P\<rparr>"
  let ?s1 = "s\<lparr>pools := AList.update X (pool_of (pools s) X) (pools s),
               pending_disposals := pending_disposals s @ [?r]\<rparr>"
  have 1: "remove_disposal D X Q P s = Inr ?s1"
    using assms by (rule remove_disposal_nothing_pending)
  have 2: "add_acquisition D X Q C ?s1 = Inr (s\<lparr>pools := AList.update X (pool_of (pools s) X) (pools s),
            pending_disposals := filter (\<lambda>d. 0 < qty_remaining d) (pending_disposals s),
            disposals := disposals s @
              [\<lparr>m_date = D, m_symbol = X, m_quantity = Q,
                proceeds_gbp = quantize_half_up cent P,
                cost_gbp = quantize_half_up cent (quantize_half_up unit_quantum (C / Q) * Q),
                gain_loss_gbp = quantize_half_up cent P
                  - quantize_half_up cent (quantize_half_up unit_quantum (C / Q) * Q),
                matching_rule = ''same_day''\<rparr>]\<rparr>)"
    using assms(1)
    by (subst add_acquisition_one_pending [where ps = "pending_disposals s" and r = ?r])
      (simp_all add: assms(2) Let_def)
  show ?thesis
    using 1 2 by (simp add: pool_of_update)
qed

theorem same_day_match_witness:
  "run_events [Disposal 739412 ''XYZ'' 100 11000, Acquisition 739412 ''XYZ'' 100 9000]
     \<lparr>pools = [(''ABC'', \<lparr>qty = 5, cost = 20\<rparr>)],
      pending_disposals = [\<lparr>d_date = 739410, d_symbol = ''ABC'', qty_remaining = 7,
                             original_qty = 7, total_proceeds_gbp = 70\<rparr>],
      disposals = [], stderr = []\<rparr> =
     Inr \<lparr>pools = [(''ABC'', \<lparr>qty = 5, cost = 20\<rparr>), (''XYZ'', \<lparr>qty = 0, cost = 0\<rparr>)],
          pending_disposals = [\<lparr>d_date = 739410, d_symbol = ''ABC'', qty_remaining = 7,
                                 original_qty = 7, total_proceeds_gbp = 70\<rparr>],
          disposals = [\<lparr>m_date = 739412, m_symbol = ''XYZ'', m_quantity = 100,
                        proceeds_gbp = 11000, cost_gbp = 9000, gain_loss_gbp = 2000,
                        matching_rule = ''same_day''\<rparr>],
          stderr = []\<rparr>"
  using same_day_match [of 100
     "\<lparr>pools = [(''ABC'', \<lparr>qty = 5, cost = 20\<rparr>)],
      pending_disposals = [\<lparr>d_date = 739410, d_symbol = ''ABC'', qty_remaining = 7,
                             original_qty = 7, total_proceeds_gbp = 70\<rparr>],
      disposals = [], stderr = []\<rparr>" "''XYZ''" 739412 11000 9000]
  by (simp add: pool_of_def default_pool_def quantize_half_up_def)

text \<open>
  C1 as stated fails. 300 units bought for 100 on the day 300 units were sold: the
  unit cost rounds to 0.3333 and the matched cost is 99.99, not 100. With 10 units
  already in the pool and proceeds of 110.005, the proceeds recorded are 110.01 and
  the pool still holds 10 units afterwards.
\<close>

theorem same_day_cost_counterexample:
  "run_events [Disposal 739412 ''XYZ'' 300 11000, Acquisition 739412 ''XYZ'' 300 100] init_pool =
     Inr \<lparr>pools = [(''XYZ'', \<lparr>qty = 0, cost = 0\<rparr>)], pending_disposals = [],
          disposals = [\<lparr>m_date = 739412, m_symbol = ''XYZ'', m_quantity = 300,
                        proceeds_gbp = 11000, cost_gbp = 99.99, gain_loss_gbp = 10900.01,
                        matching_rule = ''same_day''\<rparr>],
          stderr = []\<rparr>
   \<and> run_events [Acquisition 739403 ''XYZ'' 10 50, Disposal 739412 ''XYZ'' 300 110.005,
                  Acquisition 739412 ''XYZ'' 300 100] init_pool =
     Inr \<lparr>pools = [(''XYZ'', \<lparr>qty = 10, cost = 50\<rparr>)], pending_disposals = [],
          disposals = [\<lparr>m_date = 739412, m_symbol = ''XYZ'', m_quantity = 300,
                        proceeds_gbp = 110.01, cost_gbp = 99.99, gain_loss_gbp = 10.02,
                        matching_rule = ''same_day''\<rparr>],
          stderr = []\<rparr>"
  by (simp add: s104_defs)

text \<open>
  C2, as the code has it. A disposal of \<open>Q\<close> on day \<open>D\<close>, recorded when nothing
  of the instrument is pending, and then an acquisition of \<open>Q\<close>. On day \<open>D + 15\<close>
  the acquisition matches the disposal: one record tagged \<^verbatim>\<open>thirty_day\<close>, at
  the acquisition's rounded unit cost times \<open>Q\<close>, rounded to the penny. On day
  \<open>D + 31\<close> nothing is matched: the pool is credited with the acquisition's quantity
  and cost and the disposal stays pending; any later flush of the instrument (by a
  disposal after day \<open>D + 30\<close>, or at the end of the stream) takes it from the pool
  and records it tagged \<^verbatim>\<open>section_104\<close>.
\<close>

theorem thirty_day_window:
  assumes "0 < Q" and "\<forall>d \<in> set (pending_disposals s). d_symbol d \<noteq> X"
    and "valid_date D" and "valid_date (D + 31)"
  shows "run_events [Disposal D X Q P, Acquisition (D + 15) X Q C] s =
     Inr (s\<lparr>pools := AList.update X (pool_of (pools s) X) (pools s),
            pending_disposals := filter (\<lambda>d. 0 < qty_remaining d) (pending_disposals s),
            disposals := disposals s @
              [\<lparr>m_date = D, m_symbol = X, m_quantity = Q,
                proceeds_gbp = quantize_half_up cent P,
                cost_gbp = quantize_half_up cent (quantize_half_up unit_quantum (C / Q) * Q),
                gain_loss_gbp = quantize_half_up cent P
                  - quantize_half_up cent (quantize_half_up unit_quantum (C / Q) * Q),
                matching_rule = ''thirty_day''\<rparr>]\<rparr>)
   \<and> run_events [Disposal D X Q P, Acquisition (D + 31) X Q C] s =
     Inr (s\<lparr>pools := AList.update X
                  \<lparr>qty = qty (pool_of (pools s) X) + Q, cost = cost (pool_of (pools s) X) + C\<rparr>
                  (pools s),
            pending_disposals := filter (\<lambda>d. 0 < qty_remaining d) (pending_disposals s) @
              [\<lparr>d_date = D, d_symbol = X, qty_remaining = Q, original_qty = Q,
                total_proceeds_gbp = P\<rparr>]\<rparr>)
   \<and> (\<forall>before_date. D + 30 < before_date \<longrightarrow>
      (case flush_from_pool
              \<lparr>qty = qty (pool_of (pools s) X) + Q, cost = cost (pool_of (pools s) X) + C\<rparr> Q X of
         (c, p', ws) \<Rightarrow>
           flush_pending_disposals_for_symbol X before_date
             (s\<lparr>pools := AList.update X
                  \<lparr>qty = qty (pool_of (pools s) X) + Q, cost = cost (pool_of (pools s) X) + C\<rparr>
                  (pools s),
                pending_disposals := filter (\<lambda>d. 0 < qty_remaining d) (pending_disposals s) @
                  [\<lparr>d_date = D, d_symbol = X, qty_remaining = Q, original_qty = Q,
                    total_proceeds_gbp = P\<rparr>]\<rparr>)
           = Inr (s\<lparr>pools := AList.update X p' (pools s),
                    pending_disposals := filter (\<lambda>d. 0 < qty_remaining d) (pending_disposals s),
                    disposals := disposals s @
                      [\<lparr>m_date = D, m_symbol = X, m_quantity = Q,
                        proceeds_gbp = quantize_half_up cent P, cost_gbp = c,
                        gain_loss_gbp = quantize_half_up cent P - c,
                        matching_rule = ''section_104''\<rparr>],
                    stderr := stderr s @ ws\<rparr>)))"
proof -
  let ?r = "\<lparr>d_date = D, d_symbol = X, qty_remaining = Q, original_qty = Q,
             total_proceeds_gbp = P\<rparr>"
  let ?s1 = "s\<lparr>pools := AList.update X (pool_of (pools s) X) (pools s),
               pending_disposals := pending_disposals s @ [?r]\<rparr>"
  have 1: "remove_disposal D X Q P s = Inr ?s1"
    using assms(1,2) by (rule remove_disposal_nothing_pending)
  have 2: "add_acquisition (D + 15) X Q C ?s1 =
     Inr (s\<lparr>pools := AList.update X (pool_of (pools s) X) (pools s),
            pending_disposals := filter (\<lambda>d. 0 < qty_remaining d) (pending_disposals s),
            disposals := disposals s @
              [\<lparr>m_date = D, m_symbol = X, m_quantity = Q,
                proceeds_gbp = quantize_half_up cent P,
                cost_gbp = quantize_half_up cent (quantize_half_up unit_quantum (C / Q) * Q),
                gain_loss_gbp = quantize_half_up cent P
                  - quantize_half_up cent (quantize_half_up unit_quantum (C / Q) * Q),
                matching_rule = ''thirty_day''\<rparr>]\<rparr>)"
    using assms(1)
    by (subst add_acquisition_one_pending [where ps = "pending_disposals s" and r = ?r])
      (simp_all add: assms(2) Let_def)
  have day15: "run_events [Disposal D X Q P, Acquisition (D + 15) X Q C] s =
     Inr (s\<lparr>pools := AList.update X (pool_of (pools s) X) (pools s),
            pending_disposals := filter (\<lambda>d. 0 < qty_remaining d) (pending_disposals s),
            disposals := disposals s @
              [\<lparr>m_date = D, m_symbol = X, m_quantity = Q,
                proceeds_gbp = quantize_half_up cent P,
                cost_gbp = quantize_half_up cent (quantize_half_up unit_quantum (C / Q) * Q),
                gain_loss_gbp = quantize_half_up cent P
                  - quantize_half_up cent (quantize_half_up unit_quantum (C / Q) * Q),
                matching_rule = ''thirty_day''\<rparr>]\<rparr>)"
    using 1 2 by simp
  have 3: "add_acquisition (D + 31) X Q C ?s1 =
     Inr (s\<lparr>pools := AList.update X
                  \<lparr>qty = qty (pool_of (pools s) X) + Q, cost = cost (pool_of (pools s) X) + C\<rparr>
                  (pools s),
            pending_disposals := filter (\<lambda>d. 0 < qty_remaining d) (pending_disposals s) @ [?r]\<rparr>)"
    using assms(1)
    by (subst add_acquisition_no_match [where ps = "pending_disposals s" and r = ?r])
      (simp_all add: assms(2) pool_of_update pool_update_all)
  have day31: "run_events [Disposal D X Q P, Acquisition (D + 31) X Q C] s =
     Inr (s\<lparr>pools := AList.update X
                  \<lparr>qty = qty (pool_of (pools s) X) + Q, cost = cost (pool_of (pools s) X) + C\<rparr>
                  (pools s),
            pending_disposals := filter (\<lambda>d. 0 < qty_remaining d) (pending_disposals s) @
              [\<lparr>d_date = D, d_symbol = X, qty_remaining = Q, original_qty = Q,
                total_proceeds_gbp = P\<rparr>]\<rparr>)"
    using 1 3 by simp
  have others: "\<forall>d \<in> set (filter (\<lambda>d. 0 < qty_remaining d) (pending_disposals s)). d_symbol d \<noteq> X"
    using assms(2) by simp
  have window_end: "date_add D THIRTY_DAYS = Inr (D + 30)"
    using assms(3,4) by (simp add: date_add_def valid_date_def)
  have flushed: "\<forall>before_date. D + 30 < before_date \<longrightarrow>
      (case flush_from_pool
              \<lparr>qty = qty (pool_of (pools s) X) + Q, cost = cost (pool_of (pools s) X) + C\<rparr> Q X of
         (c, p', ws) \<Rightarrow>
           flush_pending_disposals_for_symbol X before_date
             (s\<lparr>pools := AList.update X
                  \<lparr>qty = qty (pool_of (pools s) X) + Q, cost = cost (pool_of (pools s) X) + C\<rparr>
                  (pools s),
                pending_disposals := filter (\<lambda>d. 0 < qty_remaining d) (pending_disposals s) @
                  [\<lparr>d_date = D, d_symbol = X, qty_remaining = Q, original_qty = Q,
                    total_proceeds_gbp = P\<rparr>]\<rparr>)
           = Inr (s\<lparr>pools := AList.update X p' (pools s),
                    pending_disposals := filter (\<lambda>d. 0 < qty_remaining d) (pending_disposals s),
                    disposals := disposals s @
                      [\<lparr>m_date = D, m_symbol = X, m_quantity = Q,
                        proceeds_gbp = quantize_half_up cent P, cost_gbp = c,
                        gain_loss_gbp = quantize_half_up cent P - c,
                        matching_rule = ''section_104''\<rparr>],
                    stderr := stderr s @ ws\<rparr>))"
    using assms(1) window_end
    by (auto simp: flush_pending_disposals_for_symbol_def flush_loop_append
        flush_loop_other_symbol [OF others] flush_step_def decimal_div_def pool_of_update Let_def
        split: prod.splits)
  show ?thesis
    by (intro conjI day15 day31 flushed)
qed

theorem thirty_day_window_witness:
  "run_events [Disposal 739403 ''XYZ'' 50 6000, Acquisition 739418 ''XYZ'' 50 4000]
     \<lparr>pools = [(''ABC'', \<lparr>qty = 5, cost = 20\<rparr>)],
      pending_disposals = [\<lparr>d_date = 739400, d_symbol = ''ABC'', qty_remaining = 7,
                             original_qty = 7, total_proceeds_gbp = 70\<rparr>],
      disposals = [], stderr = []\<rparr> =
     Inr \<lparr>pools = [(''ABC'', \<lparr>qty = 5, cost = 20\<rparr>), (''XYZ'', \<lparr>qty = 0, cost = 0\<rparr>)],
          pending_disposals = [\<lparr>d_date = 739400, d_symbol = ''ABC'', qty_remaining = 7,
                                 original_qty = 7, total_proceeds_gbp = 70\<rparr>],
          disposals = [\<lparr>m_date = 739403, m_symbol = ''XYZ'', m_quantity = 50,
                        proceeds_gbp = 6000, cost_gbp = 4000, gain_loss_gbp = 2000,
                        matching_rule = ''thirty_day''\<rparr>],
          stderr = []\<rparr>
   \<and> run_events [Disposal 739403 ''XYZ'' 50 6000, Acquisition 739434 ''XYZ'' 50 4000]
     \<lparr>pools = [(''ABC'', \<lparr>qty = 5, cost = 20\<rparr>)],
      pending_disposals = [\<lparr>d_date = 739400, d_symbol = ''ABC'', qty_remaining = 7,
                             original_qty = 7, total_proceeds_gbp = 70\<rparr>],
      disposals = [], stderr = []\<rparr> =
     Inr \<lparr>pools = [(''ABC'', \<lparr>qty = 5, cost = 20\<rparr>), (''XYZ'', \<lparr>qty = 50, cost = 4000\<rparr>)],
          pending_disposals = [\<lparr>d_date = 739400, d_symbol = ''ABC'', qty_remaining = 7,
                                 original_qty = 7, total_proceeds_gbp = 70\<rparr>,
                               \<lparr>d_date = 739403, d_symbol = ''XYZ'', qty_remaining = 50,
                                 original_qty = 50, total_proceeds_gbp = 6000\<rparr>],
          disposals = [], stderr = []\<rparr>
   \<and> flush_pending_disposals_for_symbol ''XYZ'' date_max
        \<lparr>pools = [(''ABC'', \<lparr>qty = 5, cost = 20\<rparr>), (''XYZ'', \<lparr>qty = 50, cost = 4000\<rparr>)],
          pending_disposals = [\<lparr>d_date = 739400, d_symbol = ''ABC'', qty_remaining = 7,
                                 original_qty = 7, total_proceeds_gbp = 70\<rparr>,
                               \<lparr>d_date = 739403, d_symbol = ''XYZ'', qty_remaining = 50,
                                 original_qty = 50, total_proceeds_gbp = 6000\<rparr>],
          disposals = [], stderr = []\<rparr> =
     Inr \<lparr>pools = [(''ABC'', \<lparr>qty = 5, cost = 20\<rparr>), (''XYZ'', \<lparr>qty = 0, cost = 0\<rparr>)],
          pending_disposals = [\<lparr>d_date = 739400, d_symbol = ''ABC'', qty_remaining = 7,
                                 original_qty = 7, total_proceeds_gbp = 70\<rparr>],
          disposals = [\<lparr>m_date = 739403, m_symbol = ''XYZ'', m_quantity = 50,
                        proceeds_gbp = 6000, cost_gbp = 4000, gain_loss_gbp = 2000,
                        matching_rule = ''section_104''\<rparr>],
          stderr = []\<rparr>"
  using thirty_day_window [of 50
     "\<lparr>pools = [(''ABC'', \<lparr>qty = 5, cost = 20\<rparr>)],
      pending_disposals = [\<lparr>d_date = 739400, d_symbol = ''ABC'', qty_remaining = 7,
                             original_qty = 7, total_proceeds_gbp = 70\<rparr>],
      disposals = [], stderr = []\<rparr>" "''XYZ''" 739403 6000 4000]
  by (simp add: s104_defs)

text \<open>
  C2 as stated fails in the cost of the match: 300 units sold, 300 bought fifteen days
  later for 100, and the record tagged \<^verbatim>\<open>thirty_day\<close> has cost 99.99.
\<close>

theorem thirty_day_cost_counterexample:
  "run_events [Disposal 739403 ''ABC'' 300 500, Acquisition 739418 ''ABC'' 300 100] init_pool =
     Inr \<lparr>pools = [(''ABC'', \<lparr>qty = 0, cost = 0\<rparr>)], pending_disposals = [],
          disposals = [\<lparr>m_date = 739403, m_symbol = ''ABC'', m_quantity = 300,
                        proceeds_gbp = 500, cost_gbp = 99.99, gain_loss_gbp = 400.01,
                        matching_rule = ''thirty_day''\<rparr>],
          stderr = []\<rparr>"
  by (simp add: s104_defs)

subsection \<open>The flush at the end of the stream\<close>

text \<open>
  C4 fails at the end of the calendar. \<^verbatim>\<open>flush_all_pending\<close> flushes with
  \<^verbatim>\<open>date(9999, 12, 31)\<close> as \<^verbatim>\<open>before_date\<close>, and a disposal stays pending when
  its date plus thirty days is on or after \<^verbatim>\<open>before_date\<close>: a disposal dated
  1 December 9999 is still pending after the flush, and one dated 2 December 9999
  makes the flush raise \<^verbatim>\<open>OverflowError\<close>.
\<close>

theorem flush_all_leaves_last_month_pending:
  "run_events [Disposal 3652029 ''XYZ'' 10 100, FlushAll [''XYZ'']] init_pool =
     Inr \<lparr>pools = [(''XYZ'', \<lparr>qty = 0, cost = 0\<rparr>)],
          pending_disposals = [\<lparr>d_date = 3652029, d_symbol = ''XYZ'', qty_remaining = 10,
                                 original_qty = 10, total_proceeds_gbp = 100\<rparr>],
          disposals = [], stderr = []\<rparr>
   \<and> run_events [Disposal 3652030 ''XYZ'' 10 100, FlushAll [''XYZ'']] init_pool
       = Inl OverflowError
   \<and> valid_date 3652029 \<and> valid_date 3652030"
  by (simp add: s104_defs)

lemma flush_step_flushable:
  assumes "flushable d"
  shows "\<exists>p' out' warns'.
           flush_step symbol date_max d (p, new_pending, out, warns)
             = Inr (p', new_pending @ (if d_symbol d \<noteq> symbol then [d] else []), out', warns')"
  using assms
  by (auto simp: flushable_def flush_step_def date_add_def valid_date_def decimal_div_def Let_def
      split: prod.splits)

lemma flush_loop_flushable:
  assumes "\<forall>d \<in> set ds. flushable d"
  shows "\<exists>p' out' warns'.
           flush_loop symbol date_max ds (p, new_pending, out, warns)
             = Inr (p', new_pending @ filter (\<lambda>d. d_symbol d \<noteq> symbol) ds, out', warns')"
  using assms
proof (induction ds arbitrary: p new_pending out warns)
  case Nil
  then show ?case by simp
next
  case (Cons d ds)
  then have "flushable d" by simp
  from flush_step_flushable [OF this, of symbol p new_pending out warns]
  obtain p1 out1 warns1 where step:
    "flush_step symbol date_max d (p, new_pending, out, warns)
       = Inr (p1, new_pending @ (if d_symbol d \<noteq> symbol then [d] else []), out1, warns1)"
    by blast
  from Cons.prems have "\<forall>d \<in> set ds. flushable d" by simp
  from Cons.IH [OF this, of p1 "new_pending @ (if d_symbol d \<noteq> symbol then [d] else [])" out1 warns1]
  show ?case using step by auto
qed

lemma flush_for_symbol_flushable:
  assumes "\<forall>d \<in> set (pending_disposals s). flushable d"
  shows "\<exists>s'. flush_pending_disposals_for_symbol symbol date_max s = Inr s'
            \<and> pending_disposals s' = filter (\<lambda>d. d_symbol d \<noteq> symbol) (pending_disposals s)"
proof -
  from flush_loop_flushable [OF assms, of symbol "pool_of (pools s) symbol" "[]" "[]" "[]"]
  obtain p' out' warns' where
    "flush_loop symbol date_max (pending_disposals s) (pool_of (pools s) symbol, [], [], [])
       = Inr (p', filter (\<lambda>d. d_symbol d \<noteq> symbol) (pending_disposals s), out', warns')"
    by auto
  then show ?thesis
    by (simp add: flush_pending_disposals_for_symbol_def)
qed

lemma flush_symbols_flushable:
  assumes "\<forall>d \<in> set (pending_disposals s). flushable d"
  shows "\<exists>s'. flush_symbols symbols s = Inr s'
            \<and> pending_disposals s' = filter (\<lambda>d. d_symbol d \<notin> set symbols) (pending_disposals s)"
  using assms
proof (induction symbols arbitrary: s)
  case Nil
  then show ?case by simp
next
  case (Cons symbol symbols)
  from flush_for_symbol_flushable [OF Cons.prems, of symbol]
  obtain s1 where s1: "flush_pending_disposals_for_symbol symbol date_max s = Inr s1"
    "pending_disposals s1 = filter (\<lambda>d. d_symbol d \<noteq> symbol) (pending_disposals s)"
    by blast
  then have "\<forall>d \<in> set (pending_disposals s1). flushable d"
    using Cons.prems by simp
  from Cons.IH [OF this] obtain s' where s': "flush_symbols symbols s1 = Inr s'"
    "pending_disposals s' = filter (\<lambda>d. d_symbol d \<notin> set symbols) (pending_disposals s1)"
    by blast
  have "pending_disposals s' = filter (\<lambda>d. d_symbol d \<notin> set (symbol # symbols)) (pending_disposals s)"
    using s1(2) s'(2) by (auto intro: filter_cong)
  with s1(1) s'(1) show ?case by simp
qed

text \<open>
  When every pending disposal is flushable, \<^verbatim>\<open>flush_all_pending\<close> returns with
  nothing pending, whatever the order the symbols are taken in; the set it would
  iterate over on a second call is empty, and that call changes nothing.
\<close>

theorem flush_all_pending_idempotent:
  assumes "\<forall>d \<in> set (pending_disposals s). flushable d" and "iteration_of s symbols"
  shows "\<exists>s'. flush_all_pending symbols s = Inr s'
            \<and> pending_disposals s' = []
            \<and> (\<forall>symbols'. iteration_of s' symbols' \<longrightarrow>
                   symbols' = [] \<and> flush_all_pending symbols' s' = Inr s')"
proof -
  from flush_symbols_flushable [OF assms(1), of symbols]
  obtain s' where s': "flush_symbols symbols s = Inr s'"
    "pending_disposals s' = filter (\<lambda>d. d_symbol d \<notin> set symbols) (pending_disposals s)"
    by blast
  have "pending_disposals s' = []"
    using s'(2) assms(2) by (auto simp: iteration_of_def filter_empty_conv)
  then show ?thesis
    using s'(1) by (auto simp: flush_all_pending_def iteration_of_def)
qed

theorem flush_all_pending_idempotent_witness:
  "flush_all_pending [''ABC'', ''XYZ'']
     \<lparr>pools = [(''XYZ'', \<lparr>qty = 100, cost = 1500\<rparr>)],
      pending_disposals =
        [\<lparr>d_date = 739403, d_symbol = ''XYZ'', qty_remaining = 40, original_qty = 50,
          total_proceeds_gbp = 1000\<rparr>,
         \<lparr>d_date = 739410, d_symbol = ''ABC'', qty_remaining = 10, original_qty = 10,
          total_proceeds_gbp = 300\<rparr>],
      disposals = [], stderr = []\<rparr>
   = Inr \<lparr>pools = [(''XYZ'', \<lparr>qty = 60, cost = 900\<rparr>), (''ABC'', \<lparr>qty = 0, cost = 0\<rparr>)],
          pending_disposals = [],
          disposals =
            [\<lparr>m_date = 739410, m_symbol = ''ABC'', m_quantity = 10, proceeds_gbp = 300,
              cost_gbp = 0, gain_loss_gbp = 300, matching_rule = ''section_104''\<rparr>,
             \<lparr>m_date = 739403, m_symbol = ''XYZ'', m_quantity = 40, proceeds_gbp = 800,
              cost_gbp = 600, gain_loss_gbp = 200, matching_rule = ''section_104''\<rparr>],
          stderr = [PoolEmpty 10 ''ABC'']\<rparr>
   \<and> flush_all_pending []
       \<lparr>pools = [(''XYZ'', \<lparr>qty = 60, cost = 900\<rparr>), (''ABC'', \<lparr>qty = 0, cost = 0\<rparr>)],
          pending_disposals = [],
          disposals =
            [\<lparr>m_date = 739410, m_symbol = ''ABC'', m_quantity = 10, proceeds_gbp = 300,
              cost_gbp = 0, gain_loss_gbp = 300, matching_rule = ''section_104''\<rparr>,
             \<lparr>m_date = 739403, m_symbol = ''XYZ'', m_quantity = 40, proceeds_gbp = 800,
              cost_gbp = 600, gain_loss_gbp = 200, matching_rule = ''section_104''\<rparr>],
          stderr = [PoolEmpty 10 ''ABC'']\<rparr>
     = Inr \<lparr>pools = [(''XYZ'', \<lparr>qty = 60, cost = 900\<rparr>), (''ABC'', \<lparr>qty = 0, cost = 0\<rparr>)],
          pending_disposals = [],
          disposals =
            [\<lparr>m_date = 739410, m_symbol = ''ABC'', m_quantity = 10, proceeds_gbp = 300,
              cost_gbp = 0, gain_loss_gbp = 300, matching_rule = ''section_104''\<rparr>,
             \<lparr>m_date = 739403, m_symbol = ''XYZ'', m_quantity = 40, proceeds_gbp = 800,
              cost_gbp = 600, gain_loss_gbp = 200, matching_rule = ''section_104''\<rparr>],
          stderr = [PoolEmpty 10 ''ABC'']\<rparr>"
  using flush_all_pending_idempotent [of
     "\<lparr>pools = [(''XYZ'', \<lparr>qty = 100, cost = 1500\<rparr>)],
      pending_disposals =
        [\<lparr>d_date = 739403, d_symbol = ''XYZ'', qty_remaining = 40, original_qty = 50,
          total_proceeds_gbp = 1000\<rparr>,
         \<lparr>d_date = 739410, d_symbol = ''ABC'', qty_remaining = 10, original_qty = 10,
          total_proceeds_gbp = 300\<rparr>],
      disposals = [], stderr = []\<rparr>" "[''ABC'', ''XYZ'']"]
  by (simp add: s104_defs)

subsection \<open>What every call keeps true\<close>

lemma match_step_keeps:
  assumes inv: "\<forall>d \<in> set pending.
              0 \<le> qty_remaining d \<and> qty_remaining d \<le> original_qty d \<and> 0 < original_qty d"
    and step: "match_step acq_date symbol cpu i (pending, rq, rc, out) = Inr (pending', rq', rc', out')"
  shows "(\<forall>d \<in> set pending'.
            0 \<le> qty_remaining d \<and> qty_remaining d \<le> original_qty d \<and> 0 < original_qty d)
       \<and> length pending' = length pending"
proof (cases "i < length pending")
  case False
  then have "pending[i := x] = pending" for x by (simp add: list_update_beyond)
  with inv step show ?thesis
    by (auto simp: match_step_def Let_def split: if_splits sum.splits)
next
  case True
  then have mem: "pending ! i \<in> set pending" by simp
  let ?d = "pending ! i"
  show ?thesis
  proof (cases "rq \<le> 0 \<or> qty_remaining ?d \<le> 0")
    case True
    with inv step show ?thesis by (auto simp: match_step_def Let_def)
  next
    case False
    let ?m = "min rq (qty_remaining ?d)"
    have upd: "pending' = pending[i := ?d\<lparr>qty_remaining := qty_remaining ?d - ?m\<rparr>]"
      using step False by (auto simp: match_step_def Let_def split: sum.splits)
    have new: "0 \<le> qty_remaining ?d - ?m \<and> qty_remaining ?d - ?m \<le> original_qty ?d
        \<and> 0 < original_qty ?d"
      using inv mem False by (auto simp: min_def)
    have "set pending' \<subseteq> insert (?d\<lparr>qty_remaining := qty_remaining ?d - ?m\<rparr>) (set pending)"
      unfolding upd by (rule set_update_subset_insert)
    with inv new upd show ?thesis by auto
  qed
qed

lemma match_loop_keeps:
  assumes "\<forall>d \<in> set pending.
              0 \<le> qty_remaining d \<and> qty_remaining d \<le> original_qty d \<and> 0 < original_qty d"
    and "match_loop acq_date symbol cpu is (pending, rq, rc, out) = Inr (pending', rq', rc', out')"
  shows "(\<forall>d \<in> set pending'.
            0 \<le> qty_remaining d \<and> qty_remaining d \<le> original_qty d \<and> 0 < original_qty d)
       \<and> length pending' = length pending"
  using assms
proof (induction "is" arbitrary: pending rq rc out)
  case Nil
  then show ?case by simp
next
  case (Cons i "is")
  from Cons.prems(2) obtain pending1 rq1 rc1 out1 where
    step: "match_step acq_date symbol cpu i (pending, rq, rc, out) = Inr (pending1, rq1, rc1, out1)"
    and rest: "match_loop acq_date symbol cpu is (pending1, rq1, rc1, out1) = Inr (pending', rq', rc', out')"
    by (auto split: sum.splits)
  from match_step_keeps [OF Cons.prems(1) step]
  have 1: "\<forall>d \<in> set pending1.
              0 \<le> qty_remaining d \<and> qty_remaining d \<le> original_qty d \<and> 0 < original_qty d"
    and 2: "length pending1 = length pending" by simp_all
  from Cons.IH [OF 1 rest] 2 show ?case by simp
qed

lemma list_all_update:
  assumes "list_all P ps" and "P (k, v)"
  shows "list_all P (AList.update k v ps)"
  using assms by (induction ps) auto

lemma pool_of_nonneg:
  assumes "list_all (\<lambda>(symbol, p). 0 \<le> qty p) ps"
  shows "0 \<le> qty (pool_of ps symbol)"
proof (cases "map_of ps symbol")
  case None
  then show ?thesis by (simp add: pool_of_def default_pool_def)
next
  case (Some p)
  then have "(symbol, p) \<in> set ps" by (rule map_of_SomeD)
  with assms have "0 \<le> qty p" by (auto simp: list_all_iff)
  with Some show ?thesis by (simp add: pool_of_def)
qed

lemma add_acquisition_well_formed:
  assumes wf: "well_formed s" and res: "add_acquisition acq_date symbol q c s = Inr s'"
  shows "well_formed s'"
proof (cases "q \<le> 0")
  case True
  with wf res show ?thesis by (simp add: add_acquisition_def)
next
  case False
  let ?cpu = "quantize_half_up unit_quantum (c / q)"
  let ?is = "map fst (same_day_of acq_date symbol (pending_disposals s) @
       thirty_day_of acq_date symbol (pending_disposals s)
         (same_day_of acq_date symbol (pending_disposals s)))"
  from res False obtain pending rq rc out where
    loop: "match_loop acq_date symbol ?cpu ?is (pending_disposals s, q, c, []) = Inr (pending, rq, rc, out)"
    and s': "s' = s\<lparr>pools :=
                        (if 0 < rq then
                           AList.update symbol
                                ((pool_of (pools s) symbol)\<lparr>qty := qty (pool_of (pools s) symbol) + rq,
                                    cost := cost (pool_of (pools s) symbol) + rc\<rparr>)
                                (pools s)
                         else pools s),
                      pending_disposals := filter (\<lambda>d. 0 < qty_remaining d) pending,
                      disposals := disposals s @ out\<rparr>"
    by (auto simp: add_acquisition_def Let_def split: sum.splits if_splits)
  have "\<forall>d \<in> set (pending_disposals s).
          0 \<le> qty_remaining d \<and> qty_remaining d \<le> original_qty d \<and> 0 < original_qty d"
    using wf by (auto simp: well_formed_def list_all_iff)
  from match_loop_keeps [OF this loop]
  have pend: "\<forall>d \<in> set pending. qty_remaining d \<le> original_qty d" by simp
  have pools: "list_all (\<lambda>(symbol, p). 0 \<le> qty p) (pools s)"
    using wf by (simp add: well_formed_def)
  have "0 < rq \<Longrightarrow> list_all (\<lambda>(symbol, p). 0 \<le> qty p)
       (AList.update symbol
          ((pool_of (pools s) symbol)\<lparr>qty := qty (pool_of (pools s) symbol) + rq,
              cost := cost (pool_of (pools s) symbol) + rc\<rparr>) (pools s))"
    using pool_of_nonneg [OF pools, of symbol] by (intro list_all_update pools) simp
  with pend pools show ?thesis
    unfolding s' by (auto simp: well_formed_def list_all_iff)
qed

lemma flush_from_pool_nonneg:
  assumes "0 \<le> qty p"
  shows "0 \<le> qty (fst (snd (flush_from_pool p q symbol)))"
  using assms by (simp add: flush_from_pool_def Let_def)

lemma flush_step_keeps:
  assumes "0 \<le> qty p" and "\<forall>d \<in> set new_pending. P d" and "P disp"
    and "flush_step symbol before_date disp (p, new_pending, out, warns) = Inr (p', new_pending', out', warns')"
  shows "0 \<le> qty p' \<and> (\<forall>d \<in> set new_pending'. P d)"
  using assms flush_from_pool_nonneg [OF assms(1), of "qty_remaining disp" symbol]
  by (auto simp: flush_step_def Let_def split: if_splits sum.splits prod.splits)

lemma flush_loop_keeps:
  assumes "0 \<le> qty p" and "\<forall>d \<in> set new_pending. P d" and "\<forall>d \<in> set ds. P d"
    and "flush_loop symbol before_date ds (p, new_pending, out, warns) = Inr (p', new_pending', out', warns')"
  shows "0 \<le> qty p' \<and> (\<forall>d \<in> set new_pending'. P d)"
  using assms
proof (induction ds arbitrary: p new_pending out warns)
  case Nil
  then show ?case by simp
next
  case (Cons disp ds)
  from Cons.prems(4) obtain p1 np1 out1 warns1 where
    step: "flush_step symbol before_date disp (p, new_pending, out, warns) = Inr (p1, np1, out1, warns1)"
    and rest: "flush_loop symbol before_date ds (p1, np1, out1, warns1) = Inr (p', new_pending', out', warns')"
    by (auto split: sum.splits)
  from Cons.prems(3) have "P disp" by simp
  from flush_step_keeps [OF Cons.prems(1,2) this step]
  have 1: "0 \<le> qty p1" and 2: "\<forall>d \<in> set np1. P d" by simp_all
  from Cons.prems(3) have "\<forall>d \<in> set ds. P d" by simp
  from Cons.IH [OF 1 2 this rest] show ?case .
qed

lemma flush_for_symbol_well_formed:
  assumes wf: "well_formed s"
    and res: "flush_pending_disposals_for_symbol symbol before_date s = Inr s'"
  shows "well_formed s'"
proof -
  from res obtain p' np out warns where
    loop: "flush_loop symbol before_date (pending_disposals s) (pool_of (pools s) symbol, [], [], [])
             = Inr (p', np, out, warns)"
    and s': "s' = s\<lparr>pools := AList.update symbol p' (pools s), pending_disposals := np,
                    disposals := disposals s @ out, stderr := stderr s @ warns\<rparr>"
    by (auto simp: flush_pending_disposals_for_symbol_def split: sum.splits)
  have pools: "list_all (\<lambda>(symbol, p). 0 \<le> qty p) (pools s)"
    using wf by (simp add: well_formed_def)
  have pend: "\<forall>d \<in> set (pending_disposals s). 0 < qty_remaining d \<and> qty_remaining d \<le> original_qty d"
    using wf by (simp add: well_formed_def list_all_iff)
  from flush_loop_keeps [OF pool_of_nonneg [OF pools, of symbol] _ pend loop]
  have "0 \<le> qty p'" and "\<forall>d \<in> set np. 0 < qty_remaining d \<and> qty_remaining d \<le> original_qty d"
    by simp_all
  then show ?thesis
    unfolding s' using list_all_update [OF pools, of symbol p']
    by (simp add: well_formed_def list_all_iff)
qed

lemma flush_symbols_well_formed:
  assumes "well_formed s" and "flush_symbols symbols s = Inr s'"
  shows "well_formed s'"
  using assms
  by (induction symbols arbitrary: s) (auto split: sum.splits dest: flush_for_symbol_well_formed)

lemma remove_disposal_well_formed:
  assumes "well_formed s" and "remove_disposal disp_date symbol q proceeds s = Inr s'"
  shows "well_formed s'"
proof (cases "q \<le> 0")
  case True
  with assms show ?thesis by (simp add: remove_disposal_def)
next
  case False
  with assms(2) obtain s1 where
    1: "flush_pending_disposals_for_symbol symbol disp_date s = Inr s1"
    and s': "s' = s1\<lparr>pending_disposals := pending_disposals s1 @
                         [\<lparr>d_date = disp_date, d_symbol = symbol, qty_remaining = q,
                           original_qty = q, total_proceeds_gbp = proceeds\<rparr>]\<rparr>"
    by (auto simp: remove_disposal_def split: sum.splits)
  from flush_for_symbol_well_formed [OF assms(1) 1] False show ?thesis
    unfolding s' by (simp add: well_formed_def)
qed

lemma apply_event_well_formed:
  assumes "well_formed s" and "apply_event e s = Inr s'"
  shows "well_formed s'"
  using assms
  by (cases e)
    (auto simp: flush_all_pending_def
      dest: add_acquisition_well_formed remove_disposal_well_formed flush_symbols_well_formed)

text \<open>
  Every call keeps the pool object well formed, so every state a sequence of calls
  reaches from a new object is well formed.
\<close>

theorem run_events_well_formed:
  assumes "well_formed s" and "run_events es s = Inr s'"
  shows "well_formed s'"
  using assms
  by (induction es arbitrary: s) (auto split: sum.splits dest: apply_event_well_formed)

theorem run_events_well_formed_witness:
  "well_formed init_pool
   \<and> run_events [Acquisition 739403 ''XYZ'' 10 50, Disposal 739412 ''XYZ'' 300 110.005,
                  Acquisition 739412 ''XYZ'' 200 100] init_pool
     = Inr \<lparr>pools = [(''XYZ'', \<lparr>qty = 10, cost = 50\<rparr>)],
            pending_disposals =
              [\<lparr>d_date = 739412, d_symbol = ''XYZ'', qty_remaining = 100, original_qty = 300,
                total_proceeds_gbp = 110.005\<rparr>],
            disposals = [\<lparr>m_date = 739412, m_symbol = ''XYZ'', m_quantity = 200,
                          proceeds_gbp = 73.34, cost_gbp = 100, gain_loss_gbp = - 26.66,
                          matching_rule = ''same_day''\<rparr>],
            stderr = []\<rparr>
   \<and> well_formed
       \<lparr>pools = [(''XYZ'', \<lparr>qty = 10, cost = 50\<rparr>)],
        pending_disposals =
          [\<lparr>d_date = 739412, d_symbol = ''XYZ'', qty_remaining = 100, original_qty = 300,
            total_proceeds_gbp = 110.005\<rparr>],
        disposals = [\<lparr>m_date = 739412, m_symbol = ''XYZ'', m_quantity = 200,
                      proceeds_gbp = 73.34, cost_gbp = 100, gain_loss_gbp = - 26.66,
                      matching_rule = ''same_day''\<rparr>],
        stderr = []\<rparr>"
  using run_events_well_formed [of init_pool
      "[Acquisition 739403 ''XYZ'' 10 50, Disposal 739412 ''XYZ'' 300 110.005,
        Acquisition 739412 ''XYZ'' 200 100]"]
  by (simp add: s104_defs well_formed_def)

lemma match_step_total:
  assumes "i < length pending" and "\<forall>d \<in> set pending. 0 < original_qty d"
  shows "\<exists>acc'. match_step acq_date symbol cpu i (pending, rq, rc, out) = Inr acc'"
proof -
  have "original_qty (pending ! i) \<noteq> 0"
    using assms by (metis less_irrefl nth_mem)
  then show ?thesis
    by (simp add: match_step_def decimal_div_def Let_def)
qed

lemma match_loop_total:
  assumes "\<forall>i \<in> set is. i < length pending"
    and "\<forall>d \<in> set pending.
           0 \<le> qty_remaining d \<and> qty_remaining d \<le> original_qty d \<and> 0 < original_qty d"
  shows "\<exists>acc'. match_loop acq_date symbol cpu is (pending, rq, rc, out) = Inr acc'"
  using assms
proof (induction "is" arbitrary: pending rq rc out)
  case Nil
  show ?case by simp
next
  case (Cons i "is")
  have "i < length pending" and "\<forall>d \<in> set pending. 0 < original_qty d"
    using Cons.prems by simp_all
  from match_step_total [OF this, of acq_date symbol cpu rq rc out]
  obtain pending1 rq1 rc1 out1 where
    step: "match_step acq_date symbol cpu i (pending, rq, rc, out) = Inr (pending1, rq1, rc1, out1)"
    by (metis prod_cases4)
  from match_step_keeps [OF Cons.prems(2) step]
  have 1: "\<forall>d \<in> set pending1.
              0 \<le> qty_remaining d \<and> qty_remaining d \<le> original_qty d \<and> 0 < original_qty d"
    and 2: "length pending1 = length pending" by simp_all
  have "\<forall>i \<in> set is. i < length pending1"
    using Cons.prems(1) 2 by simp
  from Cons.IH [OF this 1, of rq1 rc1 out1] step show ?case by simp
qed

lemma to_match_in_range:
  "\<forall>i \<in> set (map fst (same_day_of acq_date symbol pending @
        thirty_day_of acq_date symbol pending (same_day_of acq_date symbol pending))).
     i < length pending"
  by (auto simp: same_day_of_def thirty_day_of_def in_set_enumerate_eq)

text \<open>
  On a well-formed pool object an acquisition never raises: every division of
  \<^verbatim>\<open>add_acquisition\<close> has a non-zero divisor.
\<close>

theorem add_acquisition_total:
  assumes "well_formed s"
  shows "\<exists>s'. add_acquisition acq_date symbol q c s = Inr s'"
proof (cases "q \<le> 0")
  case True
  then show ?thesis by (simp add: add_acquisition_def)
next
  case False
  have "\<forall>d \<in> set (pending_disposals s).
          0 \<le> qty_remaining d \<and> qty_remaining d \<le> original_qty d \<and> 0 < original_qty d"
    using assms by (auto simp: well_formed_def list_all_iff)
  from match_loop_total [OF to_match_in_range this]
  obtain acc' where "match_loop acq_date symbol (quantize_half_up unit_quantum (c / q))
        (map fst (same_day_of acq_date symbol (pending_disposals s) @
           thirty_day_of acq_date symbol (pending_disposals s)
             (same_day_of acq_date symbol (pending_disposals s))))
        (pending_disposals s, q, c, []) = Inr acc'"
    by blast
  with False show ?thesis
    by (cases acc' rule: prod_cases4) (auto simp: add_acquisition_def Let_def)
qed

theorem add_acquisition_total_witness:
  "well_formed
     \<lparr>pools = [(''XYZ'', \<lparr>qty = 10, cost = 50\<rparr>)],
      pending_disposals =
        [\<lparr>d_date = 739403, d_symbol = ''XYZ'', qty_remaining = 40, original_qty = 50,
          total_proceeds_gbp = 1000\<rparr>],
      disposals = [], stderr = []\<rparr>
   \<and> add_acquisition 739410 ''XYZ'' 60 900
       \<lparr>pools = [(''XYZ'', \<lparr>qty = 10, cost = 50\<rparr>)],
        pending_disposals =
          [\<lparr>d_date = 739403, d_symbol = ''XYZ'', qty_remaining = 40, original_qty = 50,
            total_proceeds_gbp = 1000\<rparr>],
        disposals = [], stderr = []\<rparr>
     = Inr \<lparr>pools = [(''XYZ'', \<lparr>qty = 30, cost = 350\<rparr>)], pending_disposals = [],
            disposals = [\<lparr>m_date = 739403, m_symbol = ''XYZ'', m_quantity = 40,
                          proceeds_gbp = 800, cost_gbp = 600, gain_loss_gbp = 200,
                          matching_rule = ''thirty_day''\<rparr>],
            stderr = []\<rparr>"
  using add_acquisition_total [of
       "\<lparr>pools = [(''XYZ'', \<lparr>qty = 10, cost = 50\<rparr>)],
        pending_disposals =
          [\<lparr>d_date = 739403, d_symbol = ''XYZ'', qty_remaining = 40, original_qty = 50,
            total_proceeds_gbp = 1000\<rparr>],
        disposals = [], stderr = []\<rparr>" 739410 "''XYZ''" 60 900]
  by (simp add: s104_defs well_formed_def)

end
